theory Spec2Isabelle
  imports Main "HOL-Library.Word"
begin

section \<open>Identifiers and images\<close>

type_synonym DiffID = string
type_synonym ChainID = string
type_synonym imageID = string

text \<open>A history entry is opaque per-layer metadata; the loader only compares entries
  (\<^verbatim>\<open>reflect.DeepEqual\<close>), which is equality here.\<close>

type_synonym history_entry = string

record RootFS =
  Type :: string
  DiffIDs :: "DiffID list"

record image =
  image_ID :: imageID
  image_RootFS :: RootFS
  History :: "history_entry list"

section \<open>Parent links (\<^verbatim>\<open>validatedParentLinks\<close>)\<close>

record parentLink =
  link_id :: imageID
  parentID :: imageID

text \<open>The inner loop \<^verbatim>\<open>for _, p2 := range pl\<close>: it answers whether the
  \<^verbatim>\<open>continue mainloop\<close> is taken.\<close>

fun parentInBatch :: "parentLink \<Rightarrow> parentLink list \<Rightarrow> bool" where
  "parentInBatch p [] = False"
| "parentInBatch p (p2 # rest) =
     (if link_id p2 = parentID p \<and> link_id p2 \<noteq> link_id p then True
      else parentInBatch p rest)"

text \<open>The outer loop \<^verbatim>\<open>for i, p := range pl\<close> with the result slice
  \<^verbatim>\<open>ret\<close> as accumulator: append first, then clear \<^verbatim>\<open>ret[i].parentID\<close>
  unless the inner loop continued.\<close>

fun validatedLoop ::
  "parentLink list \<Rightarrow> nat \<Rightarrow> parentLink list \<Rightarrow> parentLink list \<Rightarrow> parentLink list" where
  "validatedLoop pl i [] ret = ret"
| "validatedLoop pl i (p # ps) ret =
     (let ret1 = ret @ [p] in
      if parentInBatch p pl then validatedLoop pl (Suc i) ps ret1
      else validatedLoop pl (Suc i) ps (ret1[i := (ret1 ! i)\<lparr>parentID := ''''\<rparr>]))"

definition validatedParentLinks :: "parentLink list \<Rightarrow> parentLink list" where
  "validatedParentLinks pl = validatedLoop pl 0 pl []"

section \<open>Structural parent check (\<^verbatim>\<open>checkValidParent\<close>)\<close>

text \<open>The loop \<^verbatim>\<open>for i, h := range parent.History\<close>; reading
  \<^verbatim>\<open>img.History[i]\<close> out of range panics in Go, which is the value \<open>None\<close>.\<close>

fun historyLoop :: "history_entry list \<Rightarrow> history_entry list \<Rightarrow> nat \<Rightarrow> bool option" where
  "historyLoop [] imgH i = Some True"
| "historyLoop (h # hs) imgH i =
     (if i < length imgH
      then (if h \<noteq> imgH ! i then Some False else historyLoop hs imgH (Suc i))
      else None)"

definition checkValidParent :: "image \<Rightarrow> image \<Rightarrow> bool option" where
  "checkValidParent img parent =
     (if length (History img) = 0 \<and> length (History parent) = 0 then Some True
      else if int (length (History img)) - int (length (History parent)) \<noteq> 1 then Some False
      else historyLoop (History parent) (History img) 0)"


section \<open>Errors, layers, references\<close>

text \<open>Every error return of the loader is a value. \<open>ErrNotExist\<close> is the operating
  system's error for which \<^verbatim>\<open>os.IsNotExist\<close> holds, \<open>ErrExternal\<close> any other
  error a collaborator returns, \<open>ErrPanic\<close> a run-time panic (index out of range); the
  others are the errors the loader builds itself with \<^verbatim>\<open>fmt.Errorf\<close>.\<close>

datatype error =
    ErrNotExist
  | ErrExternal string
  | ErrLayersLengthMismatch nat nat
  | ErrInvalidDiffID nat DiffID DiffID
  | ErrInvalidLayerDiffID DiffID DiffID
  | ErrInvalidTag string
  | ErrInvalidParent imageID imageID
  | ErrNoRootDir
  | ErrInvalidTargetID string
  | ErrPanic

type_synonym byte = "8 word"
type_synonym bytes = "byte list"
type_synonym descriptor = string

record layer =
  layer_ChainID :: ChainID
  layer_DiffID :: DiffID

text \<open>A parsed reference: a name and, for a \<^verbatim>\<open>reference.NamedTagged\<close>, its tag.\<close>

datatype named = Named string "string option"

record manifestItem =
  Config :: string
  RepoTags :: "string list"
  Layers :: "string list"
  Parent :: imageID
  LayerSources :: "(DiffID \<times> descriptor) list"

section \<open>Collaborators\<close>

text \<open>The scratch directory after unpacking. Nothing but the loader writes to it, so it is
  a value of the loader's state: what \<^verbatim>\<open>safePath\<close> resolves, what opening and
  reading a file gives, what \<^verbatim>\<open>Stat\<close> on an opened file and \<^verbatim>\<open>ReadDir\<close>
  give.\<close>

record scratch =
  sc_safePath :: "string \<Rightarrow> string \<Rightarrow> error + string"
  sc_files :: "string \<Rightarrow> error + bytes"
  sc_Stat :: "string \<Rightarrow> error option"
  sc_ReadDir :: "string \<Rightarrow> error + (string \<times> bool) list"

text \<open>The pure library functions the loader calls (hashing, parsing, formatting, path
  joining) and the package's file-name constants, which are declared outside the two
  source files, taken as parameters. \<open>tarBytes\<close> is the archive a \<^verbatim>\<open>tar.Writer\<close>
  produces for the given entries (name, body); \<open>path_Join\<close> stands for both
  \<^verbatim>\<open>path.Join\<close> and \<^verbatim>\<open>filepath.Join\<close>.\<close>

record lib =
  CreateChainID :: "DiffID list \<Rightarrow> ChainID"
  NewFromJSON :: "bytes \<Rightarrow> error + image"
  decodeManifest :: "bytes \<Rightarrow> error + manifestItem list"
  decodeParent :: "bytes \<Rightarrow> error + string"
  decodeRepositories :: "bytes \<Rightarrow> error + (string \<times> (string \<times> string) list) list"
  ParseNormalizedNamed :: "string \<Rightarrow> error + named"
  WithTag :: "named \<Rightarrow> string \<Rightarrow> error + named"
  FamiliarString :: "named \<Rightarrow> string"
  HistoryFromConfig :: "bytes \<Rightarrow> error + history_entry"
  MakeConfigFromV1Config :: "bytes \<Rightarrow> RootFS \<Rightarrow> history_entry list \<Rightarrow> error + bytes"
  Marshal :: "image \<Rightarrow> error + bytes"
  sha256hex :: "bytes \<Rightarrow> string"
  DecompressStream :: "bytes \<Rightarrow> error + bytes"
  tarBytes :: "(string \<times> string) list \<Rightarrow> bytes"
  path_Join :: "string list \<Rightarrow> string"
  fmt_layer :: "layer \<Rightarrow> string"
  manifestFileName :: string
  legacyConfigFileName :: string
  legacyLayerFileName :: string
  legacyRepositoriesFileName :: string

text \<open>The stateful collaborators (layer store, image store, reference store, operating
  system), as operations on an opaque world \<open>'w\<close>; the theorems hold for every behaviour
  of theirs.\<close>

record 'w sys =
  TempDir :: "'w \<Rightarrow> (error + string) \<times> 'w"
  RemoveAll :: "string \<Rightarrow> 'w \<Rightarrow> 'w"
  Untar :: "bytes \<Rightarrow> string \<Rightarrow> 'w \<Rightarrow> (error + scratch) \<times> 'w"
  ls_Get :: "ChainID \<Rightarrow> 'w \<Rightarrow> (error + layer) \<times> 'w"
  ls_Describable :: bool
  ls_RegisterWithDescriptor :: "bytes \<Rightarrow> ChainID \<Rightarrow> descriptor \<Rightarrow> 'w \<Rightarrow> (error + layer) \<times> 'w"
  ls_Register :: "bytes \<Rightarrow> ChainID \<Rightarrow> 'w \<Rightarrow> (error + layer) \<times> 'w"
  ls_Release :: "layer \<Rightarrow> 'w \<Rightarrow> error option \<times> 'w"
  ls_Status :: "'w \<Rightarrow> (string \<times> string) list"
  ls_GetCacheID :: "ChainID \<Rightarrow> 'w \<Rightarrow> error + string"
  is_Create :: "bytes \<Rightarrow> 'w \<Rightarrow> (error + imageID) \<times> 'w"
  is_Get :: "imageID \<Rightarrow> 'w \<Rightarrow> error + image"
  is_SetParent :: "imageID \<Rightarrow> imageID \<Rightarrow> 'w \<Rightarrow> error option \<times> 'w"
  rs_Get :: "named \<Rightarrow> 'w \<Rightarrow> error + string"
  rs_AddTag :: "named \<Rightarrow> string \<Rightarrow> bool \<Rightarrow> 'w \<Rightarrow> error option \<times> 'w"
  uuid_New :: "'w \<Rightarrow> string \<times> 'w"
  os_Create :: "string \<Rightarrow> 'w \<Rightarrow> error option \<times> 'w"
  os_Write :: "string \<Rightarrow> bytes \<Rightarrow> 'w \<Rightarrow> error option \<times> 'w"
  os_Rename :: "string \<Rightarrow> string \<Rightarrow> 'w \<Rightarrow> error option \<times> 'w"

section \<open>State of a load\<close>

text \<open>The calls a load makes on its collaborators and on its output stream, in order.\<close>

datatype event =
    EvGet ChainID "error + layer"
  | EvRegister ChainID "error + layer"
  | EvRelease layer
  | EvCreate bytes "error + imageID"
  | EvSetParent imageID imageID
  | EvAddTag named string
  | EvWrite string
  | EvImageEvent imageID
  | EvRename string string

text \<open>What a \<^verbatim>\<open>defer\<close> statement registers; the arguments are evaluated when it is
  registered, as in Go.\<close>

datatype deferred = DRemoveAll string | DReleaseAndLog layer | DClose string

record 'w state =
  world :: 'w
  tmpfs :: scratch
  log :: "event list"
  defers :: "deferred list"
  loadedMap :: "string \<rightharpoonup> imageID"

type_synonym ('w, 'a) M = "'w state \<Rightarrow> (error + 'a) \<times> 'w state"

definition bnd :: "('w, 'a) M \<Rightarrow> ('a \<Rightarrow> ('w, 'b) M) \<Rightarrow> ('w, 'b) M" where
  "bnd m f = (\<lambda>s. case m s of (Inl e, s') \<Rightarrow> (Inl e, s') | (Inr x, s') \<Rightarrow> f x s')"

definition return :: "'a \<Rightarrow> ('w, 'a) M" where
  "return x = (\<lambda>s. (Inr x, s))"

definition throw :: "error \<Rightarrow> ('w, 'a) M" where
  "throw e = (\<lambda>s. (Inl e, s))"

definition readE :: "('w state \<Rightarrow> error + 'a) \<Rightarrow> ('w, 'a) M" where
  "readE f = (\<lambda>s. (f s, s))"

definition emit :: "event \<Rightarrow> ('w, unit) M" where
  "emit e = (\<lambda>s. (Inr (), s\<lparr>log := log s @ [e]\<rparr>))"

definition deferCall :: "deferred \<Rightarrow> ('w, unit) M" where
  "deferCall d = (\<lambda>s. (Inr (), s\<lparr>defers := d # defers s\<rparr>))"

text \<open>A collaborator call that changes the world and may fail, with the event that
  records it.\<close>

definition call :: "('w \<Rightarrow> (error + 'a) \<times> 'w) \<Rightarrow> ((error + 'a) \<Rightarrow> event list) \<Rightarrow> ('w, 'a) M" where
  "call op ev = (\<lambda>s. case op (world s) of (r, w) \<Rightarrow> (r, s\<lparr>world := w, log := log s @ ev r\<rparr>))"

text \<open>The same for an operation that returns only \<^verbatim>\<open>error\<close> (\<open>None\<close> is
  \<^verbatim>\<open>nil\<close>).\<close>

definition callE :: "('w \<Rightarrow> error option \<times> 'w) \<Rightarrow> event list \<Rightarrow> ('w, unit) M" where
  "callE op ev = (\<lambda>s. case op (world s) of (r, w) \<Rightarrow>
     ((case r of None \<Rightarrow> Inr () | Some e \<Rightarrow> Inl e), s\<lparr>world := w, log := log s @ ev\<rparr>))"

text \<open>A call whose error the caller drops.\<close>

definition ignoring :: "('w, 'a) M \<Rightarrow> ('w, unit) M" where
  "ignoring m = (\<lambda>s. (Inr (), snd (m s)))"

subsection \<open>Deferred calls\<close>

text \<open>\<^verbatim>\<open>layer.ReleaseAndLog\<close> releases the layer and only logs an error;
  closing a file has no effect any claim reads.\<close>

fun run_deferred :: "'w sys \<Rightarrow> deferred \<Rightarrow> 'w state \<Rightarrow> 'w state" where
  "run_deferred X (DRemoveAll p) s = s\<lparr>world := RemoveAll X p (world s)\<rparr>"
| "run_deferred X (DReleaseAndLog l) s =
     s\<lparr>world := snd (ls_Release X l (world s)), log := log s @ [EvRelease l]\<rparr>"
| "run_deferred X (DClose f) s = s"

text \<open>The stack runs from its top, the call registered last.\<close>

fun run_defers :: "'w sys \<Rightarrow> deferred list \<Rightarrow> 'w state \<Rightarrow> 'w state" where
  "run_defers X [] s = s"
| "run_defers X (d # ds) s = run_defers X ds (run_deferred X d s)"

text \<open>A function body with its own \<^verbatim>\<open>defer\<close> stack, run when the body returns on
  any path.\<close>

definition returning :: "'w sys \<Rightarrow> ('w, 'a) M \<Rightarrow> ('w, 'a) M" where
  "returning X body = (\<lambda>s. case body (s\<lparr>defers := []\<rparr>) of (r, s1) \<Rightarrow>
     (r, (run_defers X (defers s1) s1)\<lparr>defers := defers s\<rparr>))"

section \<open>The buffered reader (\<^verbatim>\<open>bufferedReadCloser\<close>)\<close>

text \<open>\<^verbatim>\<open>bufio.Reader\<close> over a stream: the bytes already taken from the stream and not
  yet read (\<open>buf\<close>), and the rest of the stream (\<open>rd\<close>). The stream delivers what is asked
  for as far as it has it.\<close>

record bufio_Reader =
  buf :: bytes
  rd :: bytes

definition bufSize :: nat where
  "bufSize = 4096"

definition NewReader :: "bytes \<Rightarrow> bufio_Reader" where
  "NewReader inTar = \<lparr>buf = [], rd = inTar\<rparr>"

definition fill :: "bufio_Reader \<Rightarrow> bufio_Reader" where
  "fill b = (let k = min (bufSize - length (buf b)) (length (rd b))
             in b\<lparr>buf := buf b @ take k (rd b), rd := drop k (rd b)\<rparr>)"

definition bufio_Peek :: "bufio_Reader \<Rightarrow> nat \<Rightarrow> (error + bytes) \<times> bufio_Reader" where
  "bufio_Peek b n =
     (let b1 = (if length (buf b) < n \<and> length (buf b) < bufSize then fill b else b)
      in if bufSize < n then (Inl (ErrExternal ''bufio: buffer full''), b1)
         else if length (buf b1) < n then (Inl (ErrExternal ''EOF''), b1)
         else (Inr (take n (buf b1)), b1))"

text \<open>\<^verbatim>\<open>Read(p)\<close> with \<open>len(p) = k\<close>: the bytes delivered and the reader after.\<close>

definition bufio_Read :: "bufio_Reader \<Rightarrow> nat \<Rightarrow> bytes \<times> bufio_Reader" where
  "bufio_Read b k =
     (if k = 0 then ([], b)
      else if buf b = [] then
        (if bufSize \<le> k then (take k (rd b), b\<lparr>rd := drop k (rd b)\<rparr>)
         else (let b1 = fill b in (take k (buf b1), b1\<lparr>buf := drop k (buf b1)\<rparr>)))
      else (take k (buf b), b\<lparr>buf := drop k (buf b)\<rparr>))"

text \<open>The wrapper: \<open>brc_r\<close> is the field \<^verbatim>\<open>r\<close>; the embedded
  \<^verbatim>\<open>io.ReadCloser\<close> is the stream \<open>rd\<close> of that reader. Both methods go to the
  buffered reader.\<close>

record bufferedReadCloser =
  brc_r :: bufio_Reader

definition Peek :: "bufferedReadCloser \<Rightarrow> nat \<Rightarrow> (error + bytes) \<times> bufferedReadCloser" where
  "Peek b n = (case bufio_Peek (brc_r b) n of (res, r') \<Rightarrow> (res, b\<lparr>brc_r := r'\<rparr>))"

definition Read :: "bufferedReadCloser \<Rightarrow> nat \<Rightarrow> bytes \<times> bufferedReadCloser" where
  "Read b k = (case bufio_Read (brc_r b) k of (p, r') \<Rightarrow> (p, b\<lparr>brc_r := r'\<rparr>))"

text \<open>Reading the wrapper to its end with a buffer of \<open>k\<close> bytes, as \<^verbatim>\<open>io.Copy\<close>
  and the unpacker do; an empty read is the end of the stream.\<close>

function ReadAll :: "nat \<Rightarrow> bufferedReadCloser \<Rightarrow> bytes" where
  "ReadAll k b =
     (if k = 0 \<or> (buf (brc_r b) = [] \<and> rd (brc_r b) = []) then []
      else (case Read b k of (p, b') \<Rightarrow> p @ ReadAll k b'))"
  by pat_completeness auto
termination
proof (relation "measure (\<lambda>(k, b). length (buf (brc_r b)) + length (rd (brc_r b)))", goal_cases)
  case 1
  show ?case by simp
next
  case (2 k b p b')
  then have k: "0 < k" and ne: "\<not> (buf (brc_r b) = [] \<and> rd (brc_r b) = [])"
    and rd: "Read b k = (p, b')"
    by simp_all
  have "length (buf (brc_r b')) + length (rd (brc_r b')) < length (buf (brc_r b)) + length (rd (brc_r b))"
  proof (cases "buf (brc_r b)")
    case Nil
    with ne obtain y ys where "rd (brc_r b) = y # ys"
      by (cases "rd (brc_r b)") auto
    with k rd Nil show ?thesis
      by (auto simp: Read_def bufio_Read_def fill_def bufSize_def Let_def split: if_splits)
  next
    case (Cons y ys)
    with k rd show ?thesis
      by (auto simp: Read_def bufio_Read_def split: if_splits)
  qed
  then show ?case by simp
qed

declare ReadAll.simps [simp del]

definition copyBufSize :: nat where
  "copyBufSize = 32768"

definition squashfsMagic :: bytes where
  "squashfsMagic = [0x68, 0x73, 0x71, 0x73]"

section \<open>The manifest path of \<^verbatim>\<open>Load\<close>\<close>

definition Append :: "RootFS \<Rightarrow> DiffID \<Rightarrow> RootFS" where
  "Append r d = r\<lparr>DiffIDs := DiffIDs r @ [d]\<rparr>"

definition RootFS_ChainID :: "lib \<Rightarrow> RootFS \<Rightarrow> ChainID" where
  "RootFS_ChainID L r = CreateChainID L (DiffIDs r)"

text \<open>\<^verbatim>\<open>m.LayerSources[diffID]\<close>: the zero descriptor for a missing key.\<close>

definition sourceOf :: "manifestItem \<Rightarrow> DiffID \<Rightarrow> descriptor" where
  "sourceOf m d = (case map_of (LayerSources m) d of None \<Rightarrow> '''' | Some x \<Rightarrow> x)"

text \<open>\<^verbatim>\<open>loadLayer\<close>: open the layer file, \<^verbatim>\<open>Stat\<close> it when progress is
  reported (\<open>quiet\<close> is false), decompress, register on top of the chain of \<open>rootFS\<close>.
  Its two deferred \<^verbatim>\<open>Close\<close> calls change nothing in this state.\<close>

definition loadLayer ::
  "lib \<Rightarrow> 'w sys \<Rightarrow> string \<Rightarrow> RootFS \<Rightarrow> string \<Rightarrow> descriptor \<Rightarrow> bool \<Rightarrow> ('w, layer) M" where
  "loadLayer L X filename rootFS ident foreignSrc quiet =
     bnd (readE (\<lambda>s. sc_files (tmpfs s) filename)) (\<lambda>rawTar.
     bnd (readE (\<lambda>s. if \<not> quiet then (case sc_Stat (tmpfs s) filename of
                                           Some e \<Rightarrow> Inl e | None \<Rightarrow> Inr ())
                       else Inr ())) (\<lambda>_.
     bnd (readE (\<lambda>s. DecompressStream L rawTar)) (\<lambda>inflatedLayerData.
     if ls_Describable X
     then call (ls_RegisterWithDescriptor X inflatedLayerData (RootFS_ChainID L rootFS) foreignSrc)
            (\<lambda>r. [EvRegister (RootFS_ChainID L rootFS) r])
     else call (ls_Register X inflatedLayerData (RootFS_ChainID L rootFS))
            (\<lambda>r. [EvRegister (RootFS_ChainID L rootFS) r]))))"

text \<open>Lines 138 to 146: look the chain of \<open>rootFS\<close> plus \<open>diffID\<close> up in the layer store,
  and load the layer only when the lookup fails.\<close>

definition getOrLoadLayer ::
  "lib \<Rightarrow> 'w sys \<Rightarrow> string \<Rightarrow> RootFS \<Rightarrow> DiffID \<Rightarrow> descriptor \<Rightarrow> bool \<Rightarrow> ('w, layer) M" where
  "getOrLoadLayer L X layerPath rootFS diffID foreignSrc quiet =
     (\<lambda>s. case call (ls_Get X (RootFS_ChainID L (Append rootFS diffID)))
                  (\<lambda>r. [EvGet (RootFS_ChainID L (Append rootFS diffID)) r]) s of
        (Inr newLayer, s1) \<Rightarrow> (Inr newLayer, s1)
      | (Inl err, s1) \<Rightarrow> loadLayer L X layerPath rootFS diffID foreignSrc quiet s1)"

text \<open>The loop \<^verbatim>\<open>for i, diffID := range img.RootFS.DiffIDs\<close>, from position
  \<open>i\<close> with the DiffIDs still to do.\<close>

fun Load_layers ::
  "lib \<Rightarrow> 'w sys \<Rightarrow> string \<Rightarrow> bool \<Rightarrow> manifestItem \<Rightarrow> nat \<Rightarrow> DiffID list \<Rightarrow> RootFS \<Rightarrow> ('w, RootFS) M" where
  "Load_layers L X tmpDir quiet m i [] rootFS = return rootFS"
| "Load_layers L X tmpDir quiet m i (diffID # rest) rootFS =
     bnd (readE (\<lambda>s. if i < length (Layers m) then sc_safePath (tmpfs s) tmpDir (Layers m ! i)
                       else Inl ErrPanic)) (\<lambda>layerPath.
     bnd (getOrLoadLayer L X layerPath rootFS diffID (sourceOf m diffID) quiet) (\<lambda>newLayer.
     bnd (deferCall (DReleaseAndLog newLayer)) (\<lambda>_.
     if diffID \<noteq> layer_DiffID newLayer
     then throw (ErrInvalidDiffID i diffID (layer_DiffID newLayer))
     else Load_layers L X tmpDir quiet m (Suc i) rest (Append rootFS diffID))))"

text \<open>The two lines the loader prints about a tag.\<close>

definition alreadyExistsLine :: "string \<Rightarrow> string \<Rightarrow> string" where
  "alreadyExistsLine name prevID =
     ''The image '' @ name @ '' already exists, renaming the old one with ID '' @ prevID @
     '' to empty string'' @ [CHR 0x0A]"

definition loadedImageLine :: "string \<Rightarrow> string" where
  "loadedImageLine name = ''Loaded image: '' @ name @ [CHR 0x0A]"

text \<open>\<^verbatim>\<open>setLoadedTag\<close>: warn when the reference points to another image, then
  add the tag.\<close>

definition setLoadedTag :: "lib \<Rightarrow> 'w sys \<Rightarrow> named \<Rightarrow> string \<Rightarrow> ('w, unit) M" where
  "setLoadedTag L X ref imgID =
     bnd (\<lambda>s. case rs_Get X ref (world s) of
                Inr prevID \<Rightarrow>
                  if prevID \<noteq> imgID
                  then emit (EvWrite (alreadyExistsLine (FamiliarString L ref) prevID)) s
                  else return () s
              | Inl err \<Rightarrow> return () s) (\<lambda>_.
     callE (rs_AddTag X ref imgID True) [EvAddTag ref imgID])"

text \<open>The loop over \<^verbatim>\<open>m.RepoTags\<close> with the counter
  \<^verbatim>\<open>imageRefCount\<close>.\<close>

fun Load_tags :: "lib \<Rightarrow> 'w sys \<Rightarrow> imageID \<Rightarrow> string list \<Rightarrow> nat \<Rightarrow> ('w, nat) M" where
  "Load_tags L X imgID [] imageRefCount = return imageRefCount"
| "Load_tags L X imgID (repoTag # rest) imageRefCount =
     bnd (readE (\<lambda>s. ParseNormalizedNamed L repoTag)) (\<lambda>nm.
     case nm of
       Named n None \<Rightarrow> throw (ErrInvalidTag repoTag)
     | Named n (Some tg) \<Rightarrow>
         bnd (ignoring (setLoadedTag L X nm imgID)) (\<lambda>_.
         bnd (emit (EvWrite (loadedImageLine (FamiliarString L nm)))) (\<lambda>_.
         Load_tags L X imgID rest (Suc imageRefCount))))"

definition loadedImageIDLine :: "imageID \<Rightarrow> string" where
  "loadedImageIDLine imgID = ''Loaded image ID: '' @ imgID @ [CHR 0x0A]"

text \<open>One iteration of \<^verbatim>\<open>for _, m := range manifest\<close> (lines 113 to 176). The
  variables that live across iterations are \<open>parentLinks\<close> and \<open>imageIDsStr\<close>, and
  \<open>imageRefCount\<close>, which line 160 sets to 0 in every iteration.\<close>

definition Load_item ::
  "lib \<Rightarrow> 'w sys \<Rightarrow> string \<Rightarrow> bool \<Rightarrow> manifestItem \<Rightarrow> parentLink list \<times> string
     \<Rightarrow> ('w, parentLink list \<times> string \<times> nat) M" where
  "Load_item L X tmpDir quiet m acc =
     (case acc of (parentLinks, imageIDsStr) \<Rightarrow>
     bnd (readE (\<lambda>s. sc_safePath (tmpfs s) tmpDir (Config m))) (\<lambda>configPath.
     bnd (readE (\<lambda>s. sc_files (tmpfs s) configPath)) (\<lambda>config.
     bnd (readE (\<lambda>s. NewFromJSON L config)) (\<lambda>img.
     if length (Layers m) \<noteq> length (DiffIDs (image_RootFS img))
     then throw (ErrLayersLengthMismatch (length (Layers m)) (length (DiffIDs (image_RootFS img))))
     else
     bnd (Load_layers L X tmpDir quiet m 0 (DiffIDs (image_RootFS img))
            ((image_RootFS img)\<lparr>DiffIDs := []\<rparr>)) (\<lambda>rootFS.
     bnd (call (is_Create X config) (\<lambda>r. [EvCreate config r])) (\<lambda>imgID.
     bnd (Load_tags L X imgID (RepoTags m) 0) (\<lambda>imageRefCount.
     bnd (emit (EvImageEvent imgID)) (\<lambda>_.
     return (parentLinks @ [\<lparr>link_id = imgID, parentID = Parent m\<rparr>],
             imageIDsStr @ loadedImageIDLine imgID, imageRefCount)))))))))"

fun Load_items ::
  "lib \<Rightarrow> 'w sys \<Rightarrow> string \<Rightarrow> bool \<Rightarrow> manifestItem list \<Rightarrow> parentLink list \<times> string \<times> nat
     \<Rightarrow> ('w, parentLink list \<times> string \<times> nat) M" where
  "Load_items L X tmpDir quiet [] acc = return acc"
| "Load_items L X tmpDir quiet (m # ms) acc =
     bnd (Load_item L X tmpDir quiet m (fst acc, fst (snd acc))) (\<lambda>acc'.
     Load_items L X tmpDir quiet ms acc')"

text \<open>\<^verbatim>\<open>setParentID\<close>.\<close>

definition setParentID :: "'w sys \<Rightarrow> imageID \<Rightarrow> imageID \<Rightarrow> ('w, unit) M" where
  "setParentID X ident parent_id =
     bnd (readE (\<lambda>s. is_Get X ident (world s))) (\<lambda>img.
     bnd (readE (\<lambda>s. is_Get X parent_id (world s))) (\<lambda>parent.
     case checkValidParent img parent of
       None \<Rightarrow> throw ErrPanic
     | Some False \<Rightarrow> throw (ErrInvalidParent (image_ID parent) (image_ID img))
     | Some True \<Rightarrow> callE (is_SetParent X ident parent_id) [EvSetParent ident parent_id]))"

text \<open>The loop over the validated links (lines 179 to 185).\<close>

fun Load_parents :: "'w sys \<Rightarrow> parentLink list \<Rightarrow> ('w, unit) M" where
  "Load_parents X [] = return ()"
| "Load_parents X (p # ps) =
     (if parentID p \<noteq> ''''
      then bnd (setParentID X (link_id p) (parentID p)) (\<lambda>_. Load_parents X ps)
      else Load_parents X ps)"

text \<open>Lines 108 to 191: the part of \<^verbatim>\<open>Load\<close> that runs once the manifest is
  decoded.\<close>

definition Load_manifest ::
  "lib \<Rightarrow> 'w sys \<Rightarrow> string \<Rightarrow> bool \<Rightarrow> manifestItem list \<Rightarrow> ('w, unit) M" where
  "Load_manifest L X tmpDir quiet manifest =
     bnd (Load_items L X tmpDir quiet manifest ([], [], 0)) (\<lambda>acc.
     case acc of (parentLinks, imageIDsStr, imageRefCount) \<Rightarrow>
     bnd (Load_parents X (validatedParentLinks parentLinks)) (\<lambda>_.
     if imageRefCount = 0 then emit (EvWrite imageIDsStr) else return ()))"

section \<open>The single-blob path (\<^verbatim>\<open>loadSquashFS\<close>)\<close>

text \<open>The loop over \<^verbatim>\<open>l.ls.Driver().Status()\<close>: the last \<^verbatim>\<open>Root Dir\<close>
  entry wins.\<close>

fun rootDirOf :: "(string \<times> string) list \<Rightarrow> string \<Rightarrow> string" where
  "rootDirOf [] root = root"
| "rootDirOf (val # rest) root = rootDirOf rest (if fst val = ''Root Dir'' then snd val else root)"

text \<open>Line 271, \<^verbatim>\<open>rootFS.DiffIDs = make([]layer.DiffID, 1)\<close>: a slice of length one,
  holding the zero value of \<^verbatim>\<open>layer.DiffID\<close>, the empty string.\<close>

definition make_DiffIDs :: "nat \<Rightarrow> DiffID list" where
  "make_DiffIDs n = replicate n ''''"

text \<open>The three writes of the \<^verbatim>\<open>tar.Writer\<close> (header, body, close) are one write of
  the archive's bytes, which may fail; the file then holds them. The read and the write
  of \<^verbatim>\<open>io.Copy\<close> through the \<^verbatim>\<open>TeeReader\<close> are one write of the whole stream,
  which may fail.\<close>

definition loadSquashFS ::
  "lib \<Rightarrow> 'w sys \<Rightarrow> bufferedReadCloser \<Rightarrow> string \<Rightarrow> bool \<Rightarrow> ('w, unit) M" where
  "loadSquashFS L X inTar tmpDir quiet = returning X (
     bnd (readE (\<lambda>s. if rootDirOf (ls_Status X (world s)) '''' = '''' then Inl ErrNoRootDir
                       else Inr (rootDirOf (ls_Status X (world s)) ''''))) (\<lambda>root.
     bnd (call (\<lambda>w. case uuid_New X w of (u, w') \<Rightarrow> (Inr u, w')) (\<lambda>r. [])) (\<lambda>u.
     let tmpDestination = path_Join L [root, ''squashfs'', ''import-'' @ u] in
     bnd (callE (os_Create X tmpDestination) []) (\<lambda>_.
     bnd (deferCall (DClose tmpDestination)) (\<lambda>_.
     let blob = ReadAll copyBufSize inTar in
     bnd (callE (os_Write X tmpDestination blob) []) (\<lambda>_.
     let layerPath = path_Join L [tmpDir, ''content.tar''];
         tarball = tarBytes L [(''SQUASHFS'', sha256hex L blob)] in
     bnd (callE (os_Create X layerPath) []) (\<lambda>_.
     bnd (deferCall (DClose layerPath)) (\<lambda>_.
     bnd (callE (os_Write X layerPath tarball) []) (\<lambda>_.
     bnd (\<lambda>s. (Inr (), s\<lparr>tmpfs := (tmpfs s)\<lparr>sc_files := (sc_files (tmpfs s))(layerPath := Inr tarball)\<rparr>\<rparr>)) (\<lambda>_.
     let rootFS = \<lparr>Type = ''layers'', DiffIDs = make_DiffIDs 1\<rparr> in
     bnd (readE (\<lambda>s. sc_files (tmpfs s) layerPath)) (\<lambda>content.
     let diffID = ''sha256:'' @ sha256hex L content in
     bnd (emit (EvWrite (''diffID:'' @ diffID @ [CHR 0x0A]))) (\<lambda>_.
     let r = Append rootFS diffID in
     bnd (\<lambda>s. case call (ls_Get X (RootFS_ChainID L r)) (\<lambda>g. [EvGet (RootFS_ChainID L r) g]) s of
                (g, s1) \<Rightarrow> (Inr g, s1)) (\<lambda>g.
     bnd (emit (EvWrite (''chainID:'' @ RootFS_ChainID L r @ [CHR 0x0A]))) (\<lambda>_.
     bnd (case g of Inr l \<Rightarrow> return l
          | Inl err \<Rightarrow> loadLayer L X layerPath rootFS diffID '''' quiet) (\<lambda>newLayer.
     bnd (emit (EvWrite (''layer:'' @ fmt_layer L newLayer @ [CHR 0x0A]))) (\<lambda>_.
     bnd (readE (\<lambda>s. ls_GetCacheID X diffID (world s))) (\<lambda>cacheID.
     let destination = path_Join L [root, ''squashfs'', cacheID] in
     bnd (emit (EvWrite (''destination:'' @ destination @ [CHR 0x0A]))) (\<lambda>_.
     bnd (ignoring (callE (os_Rename X tmpDestination destination)
                      [EvRename tmpDestination destination])) (\<lambda>_.
     bnd (deferCall (DReleaseAndLog newLayer)) (\<lambda>_.
     if diffID \<noteq> layer_DiffID newLayer
     then throw (ErrInvalidLayerDiffID diffID (layer_DiffID newLayer))
     else
     let img = \<lparr>image_ID = '''', image_RootFS = Append rootFS diffID, History = []\<rparr> in
     bnd (readE (\<lambda>s. Marshal L img)) (\<lambda>config.
     bnd (call (is_Create X config) (\<lambda>c. [EvCreate config c])) (\<lambda>imgID.
     emit (EvWrite (loadedImageIDLine imgID))))))))))))))))))))))))"

text \<open>The DiffID line 277 computes: the hash of the synthesized archive, whose one entry
  holds the hash of the blob.\<close>

definition squashfsDiffID :: "lib \<Rightarrow> bufferedReadCloser \<Rightarrow> DiffID" where
  "squashfsDiffID L inTar =
     ''sha256:'' @ sha256hex L (tarBytes L [(''SQUASHFS'', sha256hex L (ReadAll copyBufSize inTar))])"

section \<open>The legacy path (\<^verbatim>\<open>legacyLoad\<close>, \<^verbatim>\<open>legacyLoadImage\<close>)\<close>

definition NewRootFS :: RootFS where
  "NewRootFS = \<lparr>Type = ''layers'', DiffIDs = []\<rparr>"

text \<open>Lines 475 to 527 of \<^verbatim>\<open>legacyLoadImage\<close>: what it does once the parent's image
  id is known (\<open>parent_id\<close> is empty for an image without parent).\<close>

definition legacyLoadImage_rest ::
  "lib \<Rightarrow> 'w sys \<Rightarrow> string \<Rightarrow> string \<Rightarrow> bytes \<Rightarrow> imageID \<Rightarrow> bool \<Rightarrow> ('w, unit) M" where
  "legacyLoadImage_rest L X oldID sourceDir imageJSON parent_id quiet =
     bnd (if parent_id \<noteq> ''''
          then bnd (readE (\<lambda>s. is_Get X parent_id (world s))) (\<lambda>parentImg.
               return (image_RootFS parentImg, History parentImg))
          else return (NewRootFS, [])) (\<lambda>inherited.
     bnd (readE (\<lambda>s. sc_safePath (tmpfs s) sourceDir (path_Join L [oldID, legacyLayerFileName L]))) (\<lambda>layerPath.
     bnd (loadLayer L X layerPath (fst inherited) oldID '''' quiet) (\<lambda>newLayer.
     let rootFS = Append (fst inherited) (layer_DiffID newLayer) in
     bnd (readE (\<lambda>s. HistoryFromConfig L imageJSON)) (\<lambda>h.
     let history = snd inherited @ [h] in
     bnd (readE (\<lambda>s. MakeConfigFromV1Config L imageJSON rootFS history)) (\<lambda>config.
     bnd (call (is_Create X config) (\<lambda>c. [EvCreate config c])) (\<lambda>imgID.
     bnd (callE (ls_Release X newLayer) [EvRelease newLayer]) (\<lambda>_.
     bnd (if parent_id \<noteq> ''''
          then callE (is_SetParent X imgID parent_id) [EvSetParent imgID parent_id]
          else return ()) (\<lambda>_.
     (\<lambda>s. (Inr (), s\<lparr>loadedMap := (loadedMap s)(oldID \<mapsto> imgID)\<rparr>))))))))))"

text \<open>\<^verbatim>\<open>legacyLoadImage\<close> calls itself from inside its \<^verbatim>\<open>for\<close> loop, and the loop
  may run again after the call. Both are one recursive function: \<open>LoadImage\<close> enters the
  function, \<open>ResolveParent\<close> is the head of the loop of lines 463 to 472. The recursion
  need not end, so the value \<open>None\<close> stands for a call that never returns.\<close>

datatype legacy_call = LoadImage string | ResolveParent string bytes string

partial_function (option) legacyLoadImage_rec ::
  "lib \<Rightarrow> 'w sys \<Rightarrow> string \<Rightarrow> bool \<Rightarrow> legacy_call \<Rightarrow> 'w state \<Rightarrow> ((error + unit) \<times> 'w state) option" where
  "legacyLoadImage_rec L X sourceDir quiet c s =
     (case c of
        LoadImage oldID \<Rightarrow>
          (if loadedMap s oldID \<noteq> None then Some (Inr (), s)
           else case sc_safePath (tmpfs s) sourceDir (path_Join L [oldID, legacyConfigFileName L]) of
             Inl e \<Rightarrow> Some (Inl e, s)
           | Inr configPath \<Rightarrow>
             (case sc_files (tmpfs s) configPath of
                Inl e \<Rightarrow> Some (Inl e, s)
              | Inr imageJSON \<Rightarrow>
                (case decodeParent L imageJSON of
                   Inl e \<Rightarrow> Some (Inl e, s)
                 | Inr parent \<Rightarrow>
                   if parent \<noteq> ''''
                   then legacyLoadImage_rec L X sourceDir quiet (ResolveParent oldID imageJSON parent) s
                   else Some (legacyLoadImage_rest L X oldID sourceDir imageJSON '''' quiet s))))
      | ResolveParent oldID imageJSON parent \<Rightarrow>
          (case loadedMap s parent of
             Some parent_id \<Rightarrow> Some (legacyLoadImage_rest L X oldID sourceDir imageJSON parent_id quiet s)
           | None \<Rightarrow>
               Option.bind (legacyLoadImage_rec L X sourceDir quiet (LoadImage parent) s)
                 (\<lambda>rs. case fst rs of
                    Inl e \<Rightarrow> Some (Inl e, snd rs)
                  | Inr u \<Rightarrow> legacyLoadImage_rec L X sourceDir quiet
                              (ResolveParent oldID imageJSON parent) (snd rs))))"

definition legacyLoadImage ::
  "lib \<Rightarrow> 'w sys \<Rightarrow> string \<Rightarrow> string \<Rightarrow> bool \<Rightarrow> 'w state \<Rightarrow> ((error + unit) \<times> 'w state) option" where
  "legacyLoadImage L X oldID sourceDir quiet = legacyLoadImage_rec L X sourceDir quiet (LoadImage oldID)"

text \<open>The loop over the directory entries (lines 397 to 403).\<close>

fun legacyLoad_dirs ::
  "lib \<Rightarrow> 'w sys \<Rightarrow> string \<Rightarrow> bool \<Rightarrow> (string \<times> bool) list \<Rightarrow> 'w state \<Rightarrow> ((error + unit) \<times> 'w state) option" where
  "legacyLoad_dirs L X tmpDir quiet [] s = Some (Inr (), s)"
| "legacyLoad_dirs L X tmpDir quiet (d # ds) s =
     (if snd d
      then Option.bind (legacyLoadImage L X (fst d) tmpDir quiet s)
             (\<lambda>rs. case fst rs of
                Inl e \<Rightarrow> Some (Inl e, snd rs)
              | Inr u \<Rightarrow> legacyLoad_dirs L X tmpDir quiet ds (snd rs))
      else legacyLoad_dirs L X tmpDir quiet ds s)"

text \<open>The loops over the repositories file (lines 421 to 437); the decoder fixes the order
  in which Go ranges over the two maps.\<close>

fun legacyLoad_tagMap :: "lib \<Rightarrow> 'w sys \<Rightarrow> string \<Rightarrow> (string \<times> string) list \<Rightarrow> ('w, unit) M" where
  "legacyLoad_tagMap L X name [] = return ()"
| "legacyLoad_tagMap L X name (t # rest) =
     bnd (readE (\<lambda>s. case loadedMap s (snd t) of
                       None \<Rightarrow> Inl (ErrInvalidTargetID (snd t)) | Some imgID \<Rightarrow> Inr imgID)) (\<lambda>imgID.
     bnd (readE (\<lambda>s. ParseNormalizedNamed L name)) (\<lambda>nm.
     bnd (readE (\<lambda>s. WithTag L nm (fst t))) (\<lambda>ref.
     bnd (ignoring (setLoadedTag L X ref imgID)) (\<lambda>_.
     legacyLoad_tagMap L X name rest))))"

fun legacyLoad_repositories ::
  "lib \<Rightarrow> 'w sys \<Rightarrow> (string \<times> (string \<times> string) list) list \<Rightarrow> ('w, unit) M" where
  "legacyLoad_repositories L X [] = return ()"
| "legacyLoad_repositories L X (nt # rest) =
     bnd (legacyLoad_tagMap L X (fst nt) (snd nt)) (\<lambda>_. legacyLoad_repositories L X rest)"

definition legacyLoad_tags :: "lib \<Rightarrow> 'w sys \<Rightarrow> string \<Rightarrow> ('w, unit) M" where
  "legacyLoad_tags L X tmpDir =
     bnd (readE (\<lambda>s. sc_safePath (tmpfs s) tmpDir (legacyRepositoriesFileName L))) (\<lambda>repositoriesPath.
     bnd (readE (\<lambda>s. sc_files (tmpfs s) repositoriesPath)) (\<lambda>repositoriesFile.
     bnd (deferCall (DClose repositoriesPath)) (\<lambda>_.
     bnd (readE (\<lambda>s. decodeRepositories L repositoriesFile)) (\<lambda>repositories.
     legacyLoad_repositories L X repositories))))"

definition legacyLoad ::
  "lib \<Rightarrow> 'w sys \<Rightarrow> string \<Rightarrow> bool \<Rightarrow> 'w state \<Rightarrow> ((error + unit) \<times> 'w state) option" where
  "legacyLoad L X tmpDir quiet s =
     (case sc_ReadDir (tmpfs s) tmpDir of
        Inl e \<Rightarrow> Some (Inl e, s\<lparr>loadedMap := Map.empty\<rparr>)
      | Inr dirs \<Rightarrow>
          Option.bind (legacyLoad_dirs L X tmpDir quiet dirs (s\<lparr>loadedMap := Map.empty\<rparr>))
            (\<lambda>rs. case fst rs of
               Inl e \<Rightarrow> Some (Inl e, snd rs)
             | Inr u \<Rightarrow> Some (legacyLoad_tags L X tmpDir (snd rs))))"

subsection \<open>Parent pointers of a legacy archive\<close>

text \<open>The parent a legacy image directory declares: what lines 446 to 462 read from its
  config, \<open>None\<close> when the config cannot be read or decoded or names no parent.\<close>

definition legacy_parent :: "lib \<Rightarrow> scratch \<Rightarrow> string \<Rightarrow> string \<Rightarrow> string option" where
  "legacy_parent L sc sourceDir oldID =
     (case sc_safePath sc sourceDir (path_Join L [oldID, legacyConfigFileName L]) of
        Inl e \<Rightarrow> None
      | Inr configPath \<Rightarrow>
          (case sc_files sc configPath of
             Inl e \<Rightarrow> None
           | Inr imageJSON \<Rightarrow>
               (case decodeParent L imageJSON of
                  Inl e \<Rightarrow> None
                | Inr parent \<Rightarrow> if parent \<noteq> '''' then Some parent else None)))"

text \<open>The chain of parent pointers from a legacy ID is finite: it reaches an image that
  declares no parent.\<close>

inductive chain_ends :: "lib \<Rightarrow> scratch \<Rightarrow> string \<Rightarrow> string \<Rightarrow> bool"
  for L :: lib and sc :: scratch and sourceDir :: string where
  root: "legacy_parent L sc sourceDir oldID = None \<Longrightarrow> chain_ends L sc sourceDir oldID"
| child: "legacy_parent L sc sourceDir oldID = Some parent \<Longrightarrow> chain_ends L sc sourceDir parent \<Longrightarrow>
          chain_ends L sc sourceDir oldID"

section \<open>\<^verbatim>\<open>Load\<close>\<close>

text \<open>Lines 89 to 106 and the dispatch to the legacy or the manifest path, on the scratch
  directory as the unpacking left it: look for the manifest.\<close>

definition Load_unpacked ::
  "lib \<Rightarrow> 'w sys \<Rightarrow> string \<Rightarrow> bool \<Rightarrow> scratch \<Rightarrow> 'w state \<Rightarrow> ((error + unit) \<times> 'w state) option" where
  "Load_unpacked L X tmpDir quiet sc s1 =
     (case sc_safePath sc tmpDir (manifestFileName L) of
        Inl e \<Rightarrow> Some (Inl e, s1\<lparr>tmpfs := sc\<rparr>)
      | Inr manifestPath \<Rightarrow>
          (case sc_files sc manifestPath of
             Inl e \<Rightarrow>
               if e = ErrNotExist then legacyLoad L X tmpDir quiet (s1\<lparr>tmpfs := sc\<rparr>)
               else Some (Inl e, s1\<lparr>tmpfs := sc\<rparr>)
           | Inr manifestFile \<Rightarrow>
               (case decodeManifest L manifestFile of
                  Inl e \<Rightarrow> Some (Inl e, s1\<lparr>tmpfs := sc, defers := DClose manifestPath # defers s1\<rparr>)
                | Inr manifest \<Rightarrow>
                    Some (Load_manifest L X tmpDir quiet manifest
                            (s1\<lparr>tmpfs := sc, defers := DClose manifestPath # defers s1\<rparr>)))))"

text \<open>Lines 85 to 87, then the above: unpack what the reader still delivers into the
  scratch directory.\<close>

definition Load_structured ::
  "lib \<Rightarrow> 'w sys \<Rightarrow> bufferedReadCloser \<Rightarrow> string \<Rightarrow> bool \<Rightarrow> 'w state \<Rightarrow> ((error + unit) \<times> 'w state) option" where
  "Load_structured L X reader tmpDir quiet s =
     (case call (Untar X (ReadAll copyBufSize reader) tmpDir) (\<lambda>r. []) s of
        (Inl e, s1) \<Rightarrow> Some (Inl e, s1)
      | (Inr sc, s1) \<Rightarrow> Load_unpacked L X tmpDir quiet sc s1)"

text \<open>What \<^verbatim>\<open>Load\<close> does when it returns: its deferred calls, last registered
  first.\<close>

definition Load_return :: "'w sys \<Rightarrow> 'w state \<Rightarrow> (error + unit) \<times> 'w state \<Rightarrow> (error + unit) \<times> 'w state" where
  "Load_return X s rs = (fst rs, (run_defers X (defers (snd rs)) (snd rs))\<lparr>defers := defers s\<rparr>)"

definition Load ::
  "lib \<Rightarrow> 'w sys \<Rightarrow> bytes \<Rightarrow> bool \<Rightarrow> 'w state \<Rightarrow> ((error + unit) \<times> 'w state) option" where
  "Load L X inTar quiet s =
     (case TempDir X (world s) of
        (Inl e, w) \<Rightarrow> Some (Inl e, s\<lparr>world := w\<rparr>)
      | (Inr tmpDir, w) \<Rightarrow>
          map_option (Load_return X s)
            (case Peek \<lparr>brc_r = NewReader inTar\<rparr> 4 of
               (Inl e, reader) \<Rightarrow> Some (Inl e, s\<lparr>world := w, defers := [DRemoveAll tmpDir]\<rparr>)
             | (Inr b, reader) \<Rightarrow>
                 if b = squashfsMagic
                 then Some (loadSquashFS L X reader tmpDir quiet
                              (s\<lparr>world := w, defers := [DRemoveAll tmpDir]\<rparr>))
                 else Load_structured L X reader tmpDir quiet
                        (s\<lparr>world := w, defers := [DRemoveAll tmpDir]\<rparr>)))"

section \<open>Mounting a squashfs layer (\<^verbatim>\<open>squashfsMount\<close>)\<close>

text \<open>The aufs driver's view of its host: the driver's root path, \<^verbatim>\<open>path.Join\<close>,
  \<^verbatim>\<open>os.Stat\<close> (only its error is read) and \<^verbatim>\<open>exec.Command(...).Output()\<close>
  on an opaque host \<open>'o\<close>.\<close>

record 'o driver =
  rootPath :: string
  drv_Join :: "string list \<Rightarrow> string"
  drv_Stat :: "string \<Rightarrow> 'o \<Rightarrow> error option"
  drv_Output :: "string list \<Rightarrow> 'o \<Rightarrow> (error + string) \<times> 'o"

text \<open>The host and the commands run on it so far, each with its arguments.\<close>

record 'o host =
  hos :: 'o
  commands :: "string list list"

text \<open>\<^verbatim>\<open>strings.Contains\<close>: \<open>substr\<close> occurs in \<open>s\<close> at some position.\<close>

fun strings_Contains :: "string \<Rightarrow> string \<Rightarrow> bool" where
  "strings_Contains [] substr = (substr = [])"
| "strings_Contains (c # cs) substr =
     (take (length substr) (c # cs) = substr \<or> strings_Contains cs substr)"

definition squashfsSource :: "'o driver \<Rightarrow> string \<Rightarrow> string" where
  "squashfsSource a name = drv_Join a [rootPath a, ''squashfs'', name]"

definition squashfsLayer :: "'o driver \<Rightarrow> string \<Rightarrow> string" where
  "squashfsLayer a name = drv_Join a [rootPath a, ''diff'', name]"

definition mountList :: "string list" where
  "mountList = [''mount'']"

definition mountSquashfs :: "'o driver \<Rightarrow> string \<Rightarrow> string list" where
  "mountSquashfs a name = [''mount'', ''-t'', ''squashfs'', squashfsSource a name, squashfsLayer a name]"

definition run :: "'o driver \<Rightarrow> string list \<Rightarrow> 'o host \<Rightarrow> (error + string) \<times> 'o host" where
  "run a argv st = (case drv_Output a argv (hos st) of
     (r, os') \<Rightarrow> (r, st\<lparr>hos := os', commands := commands st @ [argv]\<rparr>))"

definition squashfsMount :: "'o driver \<Rightarrow> string \<Rightarrow> 'o host \<Rightarrow> error option \<times> 'o host" where
  "squashfsMount a name st =
     (case drv_Stat a (squashfsSource a name) (hos st) of
        Some err \<Rightarrow> (None, st)
      | None \<Rightarrow>
          (case run a mountList st of
             (Inl err, st1) \<Rightarrow> (Some err, st1)
           | (Inr out, st1) \<Rightarrow>
               if \<not> strings_Contains out (squashfsLayer a name)
               then (case run a (mountSquashfs a name) st1 of
                       (Inl err, st2) \<Rightarrow> (Some err, st2)
                     | (Inr out2, st2) \<Rightarrow> (None, st2))
               else (None, st1)))"

text \<open>A host for the examples: the files that exist and the mounts, which
  \<^verbatim>\<open>mount\<close> lists one per line and \<^verbatim>\<open>mount -t squashfs\<close> extends.\<close>

fun example_Output :: "string list \<Rightarrow> (string \<times> string) list \<Rightarrow> (error + string) \<times> (string \<times> string) list" where
  "example_Output [c] ms =
     (Inr (concat (map (\<lambda>m. fst m @ '' on '' @ snd m @ '' type squashfs (ro)'' @ [CHR 0x0A]) ms)), ms)"
| "example_Output [c, t, ty, src, tgt] ms = (Inr [], ms @ [(src, tgt)])"
| "example_Output argv ms = (Inl (ErrExternal ''usage''), ms)"

definition example_driver :: "(string \<times> string) list driver" where
  "example_driver =
     \<lparr>rootPath = ''/r'',
      drv_Join = (\<lambda>ps. case ps of [a, b, c] \<Rightarrow> a @ ''/'' @ b @ ''/'' @ c | _ \<Rightarrow> concat ps),
      drv_Stat = (\<lambda>p os. if p = ''/r/squashfs/l1'' then None else Some ErrNotExist),
      drv_Output = example_Output\<rparr>"

section \<open>Reading the log\<close>

definition is_create :: "event \<Rightarrow> bool" where
  "is_create e = (case e of EvCreate c r \<Rightarrow> True | _ \<Rightarrow> False)"

definition is_release :: "event \<Rightarrow> bool" where
  "is_release e = (case e of EvRelease l \<Rightarrow> True | _ \<Rightarrow> False)"

text \<open>A call of \<^verbatim>\<open>Register\<close> or \<^verbatim>\<open>RegisterWithDescriptor\<close>, and a lookup that
  failed.\<close>

definition is_register :: "event \<Rightarrow> bool" where
  "is_register e = (case e of EvRegister c r \<Rightarrow> True | _ \<Rightarrow> False)"

definition is_miss :: "event \<Rightarrow> bool" where
  "is_miss e = (case e of EvGet c (Inl err) \<Rightarrow> True | _ \<Rightarrow> False)"

text \<open>The layer a call handed out with a reference: a lookup that succeeded, a
  registration that succeeded.\<close>

definition acquired_by :: "event \<Rightarrow> layer list" where
  "acquired_by e = (case e of EvGet c (Inr l) \<Rightarrow> [l] | EvRegister c (Inr l) \<Rightarrow> [l] | _ \<Rightarrow> [])"

definition acquired :: "event list \<Rightarrow> layer list" where
  "acquired evs = concat (map acquired_by evs)"

definition released :: "event list \<Rightarrow> layer list" where
  "released evs = concat (map (\<lambda>e. case e of EvRelease l \<Rightarrow> [l] | _ \<Rightarrow> []) evs)"

definition created_ids :: "event list \<Rightarrow> imageID list" where
  "created_ids evs = concat (map (\<lambda>e. case e of EvCreate c (Inr i) \<Rightarrow> [i] | _ \<Rightarrow> []) evs)"

text \<open>Every registration in a sequence of events comes directly after a lookup that
  failed; \<open>miss\<close> says whether the event before the sequence was one.\<close>

fun guarded_from :: "bool \<Rightarrow> event list \<Rightarrow> bool" where
  "guarded_from miss [] = True"
| "guarded_from miss (e # es) = ((if is_register e then miss else True) \<and> guarded_from (is_miss e) es)"

definition reg_guarded :: "event list \<Rightarrow> bool" where
  "reg_guarded evs = guarded_from False evs"

text \<open>The events of the layer loop, the lines about tags, and the events that neither
  touch a layer nor create an image.\<close>

definition is_layer_event :: "event \<Rightarrow> bool" where
  "is_layer_event e = (case e of EvGet c r \<Rightarrow> True | EvRegister c r \<Rightarrow> True | _ \<Rightarrow> False)"

definition tag_line :: "string \<Rightarrow> bool" where
  "tag_line w = (take 14 w = ''Loaded image: '' \<or> take 10 w = ''The image '')"

definition is_plain_event :: "event \<Rightarrow> bool" where
  "is_plain_event e =
     (case e of EvAddTag r i \<Rightarrow> True | EvWrite w \<Rightarrow> tag_line w | EvSetParent i p \<Rightarrow> True
      | EvImageEvent i \<Rightarrow> True | _ \<Rightarrow> False)"

text \<open>What was written to the output stream.\<close>

definition writes :: "event list \<Rightarrow> string list" where
  "writes evs = concat (map (\<lambda>e. case e of EvWrite w \<Rightarrow> [w] | _ \<Rightarrow> []) evs)"

text \<open>The events of the manifest path before its last write: no release, no rename, and
  only tag lines written.\<close>

definition is_manifest_event :: "event \<Rightarrow> bool" where
  "is_manifest_event e =
     (case e of EvRelease l \<Rightarrow> False | EvRename a b \<Rightarrow> False | EvWrite w \<Rightarrow> tag_line w | _ \<Rightarrow> True)"

text \<open>From \<open>s\<close> to \<open>s'\<close> by the events \<open>ev\<close>: the log grows by them, every registration
  in them follows a failed lookup, every layer they acquire has its deferred release on
  the stack, and the scratch directory is as before.\<close>

definition steps :: "'w state \<Rightarrow> 'w state \<Rightarrow> event list \<Rightarrow> bool" where
  "steps s s' ev =
     (log s' = log s @ ev \<and> reg_guarded ev \<and> list_all is_manifest_event ev \<and>
      defers s' = map DReleaseAndLog (rev (acquired ev)) @ defers s \<and> tmpfs s' = tmpfs s)"

text \<open>The layers a stack of deferred calls releases, in the order in which it runs.\<close>

definition to_release :: "deferred list \<Rightarrow> layer list" where
  "to_release ds = concat (map (\<lambda>d. case d of DReleaseAndLog l \<Rightarrow> [l] | _ \<Rightarrow> []) ds)"

text \<open>The store after \<^verbatim>\<open>Release\<close> of each layer of a list, in the order of the list.\<close>

fun release_layers :: "'w sys \<Rightarrow> layer list \<Rightarrow> 'w \<Rightarrow> 'w" where
  "release_layers X [] w = w"
| "release_layers X (l # ls) w = release_layers X ls (snd (ls_Release X l w))"

section \<open>Collaborators for the examples\<close>

text \<open>A small world to run the loader on: a layer store and an image store as
  association lists, chain ids built as the layer package builds them from a parent and
  a DiffID (with brackets for the digest), and tables for what the archives' files
  decode to.\<close>

record example_world =
  ew_layers :: "(ChainID \<times> layer) list"
  ew_images :: "(imageID \<times> image) list"

fun example_chain :: "ChainID \<Rightarrow> DiffID list \<Rightarrow> ChainID" where
  "example_chain parent [] = parent"
| "example_chain parent (d # ds) =
     (if parent = '''' then example_chain d ds
      else example_chain (''H('' @ parent @ '' '' @ d @ '')'') ds)"

definition example_diffID :: "bytes \<Rightarrow> DiffID" where
  "example_diffID data =
     (if data = [11] then ''d1'' else if data = [12] then ''d2''
      else if data = [13] then ''sha256:aa'' else ''dX'')"

definition example_image :: "bytes \<Rightarrow> error + image" where
  "example_image config =
     (if config = [1] then Inr \<lparr>image_ID = '''', image_RootFS = \<lparr>Type = ''layers'', DiffIDs = [''d1'']\<rparr>,
                                History = [''h1'']\<rparr>
      else if config = [2] then Inr \<lparr>image_ID = '''', image_RootFS = \<lparr>Type = ''layers'', DiffIDs = [''d1'', ''d2'']\<rparr>,
                                History = [''h1'', ''h2'']\<rparr>
      else if config = [3] \<or> config = [4] then Inr \<lparr>image_ID = '''', image_RootFS = \<lparr>Type = ''layers'', DiffIDs = []\<rparr>,
                                History = []\<rparr>
      else Inl (ErrExternal ''invalid image JSON''))"

definition example_imageID :: "bytes \<Rightarrow> imageID" where
  "example_imageID config =
     (if config = [1] then ''id1'' else if config = [2] then ''id2''
      else if config = [3] then ''id3'' else if config = [4] then ''id4'' else ''id0'')"

definition example_lib :: lib where
  "example_lib =
     \<lparr>CreateChainID = example_chain '''',
      NewFromJSON = example_image,
      decodeManifest = (\<lambda>b. Inl (ErrExternal ''invalid manifest'')),
      decodeParent = (\<lambda>b. if b = [21] \<or> b = [24] then Inr ''''
                          else if b = [22] then Inr ''a''
                          else if b = [23] then Inr ''c''
                          else Inl (ErrExternal ''invalid JSON'')),
      decodeRepositories = (\<lambda>b. Inr []),
      ParseNormalizedNamed = (\<lambda>s. if s = ''a:b'' then Inr (Named ''a'' (Some ''b''))
                          else if s = ''a'' then Inr (Named ''a'' None)
                          else Inl (ErrExternal ''invalid reference format'')),
      WithTag = (\<lambda>nm tg. case nm of Named n x \<Rightarrow> Inr (Named n (Some tg))),
      FamiliarString = (\<lambda>nm. case nm of Named n None \<Rightarrow> n | Named n (Some tg) \<Rightarrow> n @ '':'' @ tg),
      HistoryFromConfig = (\<lambda>b. if b = [21] then Inr ''h1'' else if b = [22] then Inr ''h2''
                          else Inl (ErrExternal ''invalid history'')),
      MakeConfigFromV1Config = (\<lambda>b r h. if b = [21] then Inr [1] else Inr [2]),
      Marshal = (\<lambda>img. Inr (map (\<lambda>d. of_nat (length d)) (DiffIDs (image_RootFS img)))),
      sha256hex = (\<lambda>b. ''aa''),
      DecompressStream = (\<lambda>b. Inr b),
      tarBytes = (\<lambda>fs. [13]),
      path_Join = (\<lambda>ps. case ps of [] \<Rightarrow> [] | p # qs \<Rightarrow> p @ concat (map (\<lambda>q. ''/'' @ q) qs)),
      fmt_layer = layer_ChainID,
      manifestFileName = ''manifest.json'',
      legacyConfigFileName = ''json'',
      legacyLayerFileName = ''layer.tar'',
      legacyRepositoriesFileName = ''repositories''\<rparr>"

definition example_Register :: "bytes \<Rightarrow> ChainID \<Rightarrow> example_world \<Rightarrow> (error + layer) \<times> example_world" where
  "example_Register data parent w =
     (Inr \<lparr>layer_ChainID = example_chain parent [example_diffID data], layer_DiffID = example_diffID data\<rparr>,
      w\<lparr>ew_layers := (example_chain parent [example_diffID data],
                        \<lparr>layer_ChainID = example_chain parent [example_diffID data],
                         layer_DiffID = example_diffID data\<rparr>) # ew_layers w\<rparr>)"

definition example_Create :: "bytes \<Rightarrow> example_world \<Rightarrow> (error + imageID) \<times> example_world" where
  "example_Create config w =
     (case example_image config of
        Inl e \<Rightarrow> (Inr (example_imageID config), w)
      | Inr img \<Rightarrow> (Inr (example_imageID config),
                     w\<lparr>ew_images := (example_imageID config, img\<lparr>image_ID := example_imageID config\<rparr>)
                                       # ew_images w\<rparr>))"

text \<open>The unpacked archive of the examples: two manifest-format configs with their
  layers, a layer whose content is not what its config claims, and four legacy images
  (\<open>a\<close> without parent, \<open>b\<close> on \<open>a\<close>, \<open>c\<close> naming itself as parent, \<open>e\<close> with a config
  whose history does not decode).\<close>

definition example_scratch :: scratch where
  "example_scratch =
     \<lparr>sc_safePath = (\<lambda>base p. Inr (base @ ''/'' @ p)),
      sc_files = (\<lambda>p. case map_of
                   [(''/t/c1'', [1]), (''/t/c2'', [2]), (''/t/c3'', [3]), (''/t/c4'', [4]),
                    (''/t/l1'', [11]), (''/t/l2'', [12]), (''/t/lbad'', [99]),
                    (''/t/a/json'', [21]), (''/t/a/layer.tar'', [11]),
                    (''/t/b/json'', [22]), (''/t/b/layer.tar'', [12]),
                    (''/t/c/json'', [23]), (''/t/c/layer.tar'', [12]),
                    (''/t/e/json'', [24]), (''/t/e/layer.tar'', [11])] p of
                 None \<Rightarrow> Inl ErrNotExist | Some b \<Rightarrow> Inr b),
      sc_Stat = (\<lambda>p. None),
      sc_ReadDir = (\<lambda>p. Inr [(''e'', True)])\<rparr>"

text \<open>The stores of the examples. The unpacker accepts a stream that starts with the byte
  1 and refuses any other. The layer store keeps one entry for each reference it has handed
  out: a registration and a successful lookup add one, a release takes one away.\<close>

definition example_sys :: "example_world sys" where
  "example_sys =
     \<lparr>TempDir = (\<lambda>w. (Inr ''/t'', w)),
      RemoveAll = (\<lambda>p w. w),
      Untar = (\<lambda>b d w. if take 1 b = [1] then (Inr example_scratch, w)
                          else (Inl (ErrExternal ''invalid tar header''), w)),
      ls_Get = (\<lambda>c w. case map_of (ew_layers w) c of
                          None \<Rightarrow> (Inl (ErrExternal ''layer does not exist''), w)
                        | Some l \<Rightarrow> (Inr l, w\<lparr>ew_layers := (c, l) # ew_layers w\<rparr>)),
      ls_Describable = False,
      ls_RegisterWithDescriptor = (\<lambda>data parent d. example_Register data parent),
      ls_Register = example_Register,
      ls_Release = (\<lambda>l w. (None, w\<lparr>ew_layers := remove1 (layer_ChainID l, l) (ew_layers w)\<rparr>)),
      ls_Status = (\<lambda>w. [(''Name'', ''aufs''), (''Root Dir'', ''/r'')]),
      ls_GetCacheID = (\<lambda>c w. case map_of (ew_layers w) c of
                          None \<Rightarrow> Inl (ErrExternal ''layer does not exist'')
                        | Some l \<Rightarrow> Inr ''cache1''),
      is_Create = example_Create,
      is_Get = (\<lambda>i w. case map_of (ew_images w) i of
                          None \<Rightarrow> Inl (ErrExternal ''no such image'')
                        | Some img \<Rightarrow> Inr img),
      is_SetParent = (\<lambda>i p w. (None, w)),
      rs_Get = (\<lambda>r w. Inl (ErrExternal ''reference does not exist'')),
      rs_AddTag = (\<lambda>r i f w. (None, w)),
      uuid_New = (\<lambda>w. (''u1'', w)),
      os_Create = (\<lambda>p w. (None, w)),
      os_Write = (\<lambda>p b w. (None, w)),
      os_Rename = (\<lambda>p q w. (None, w))\<rparr>"

definition example_state :: "example_world state" where
  "example_state =
     \<lparr>world = \<lparr>ew_layers = [], ew_images = []\<rparr>, tmpfs = example_scratch,
      log = [], defers = [], loadedMap = Map.empty\<rparr>"



definition example_bad :: manifestItem where
  "example_bad = \<lparr>Config = ''c1'', RepoTags = [''a:b''], Layers = [''lbad''], Parent = '''', LayerSources = []\<rparr>"

definition example_base :: manifestItem where
  "example_base = \<lparr>Config = ''c1'', RepoTags = [''a:b''], Layers = [''l1''], Parent = '''', LayerSources = []\<rparr>"

definition example_child :: manifestItem where
  "example_child = \<lparr>Config = ''c2'', RepoTags = [], Layers = [''l1'', ''l2''], Parent = ''id1'', LayerSources = []\<rparr>"

section \<open>Parent links: results\<close>

lemma parentInBatch_iff:
  "parentInBatch p pl = (\<exists>p2 \<in> set pl. link_id p2 = parentID p \<and> link_id p2 \<noteq> link_id p)"
  by (induction pl) auto

lemma validatedLoop_map:
  "i = length ret \<Longrightarrow>
   validatedLoop pl i ps ret =
     ret @ map (\<lambda>p. if parentInBatch p pl then p else p\<lparr>parentID := ''''\<rparr>) ps"
proof (induction ps arbitrary: i ret)
  case Nil
  then show ?case by simp
next
  case (Cons p ps)
  have upd: "(ret @ [p])[length ret := ((ret @ [p]) ! length ret)\<lparr>parentID := ''''\<rparr>]
             = ret @ [p\<lparr>parentID := ''''\<rparr>]"
    by simp
  show ?case
    using Cons.IH [of "Suc i" "ret @ [p]"] Cons.IH [of "Suc i" "ret @ [p\<lparr>parentID := ''''\<rparr>]"]
      Cons.prems upd
    by (simp add: Let_def)
qed

lemma validatedParentLinks_map:
  "validatedParentLinks pl =
     map (\<lambda>p. if parentInBatch p pl then p else p\<lparr>parentID := ''''\<rparr>) pl"
  by (simp add: validatedParentLinks_def validatedLoop_map)

text \<open>C2. \<^verbatim>\<open>validatedParentLinks\<close> is a pure filter: the output has the length,
  the order and the ids of the input; a link keeps its parent when some link of the batch
  with a different id has that parent as its id, and gets the empty parent otherwise. The
  batch A->B, B->(none), C->Z with Z absent becomes A->B, B->(none), C->(none).\<close>

theorem validatedParentLinks_pure_filter:
  "length (validatedParentLinks pl) = length pl \<and>
   map link_id (validatedParentLinks pl) = map link_id pl \<and>
   map parentID (validatedParentLinks pl) =
     map (\<lambda>p. if (\<exists>p2 \<in> set pl. link_id p2 = parentID p \<and> link_id p2 \<noteq> link_id p)
               then parentID p else '''') pl \<and>
   validatedParentLinks
     [\<lparr>link_id = ''A'', parentID = ''B''\<rparr>, \<lparr>link_id = ''B'', parentID = ''''\<rparr>,
      \<lparr>link_id = ''C'', parentID = ''Z''\<rparr>] =
     [\<lparr>link_id = ''A'', parentID = ''B''\<rparr>, \<lparr>link_id = ''B'', parentID = ''''\<rparr>,
      \<lparr>link_id = ''C'', parentID = ''''\<rparr>]"
proof -
  have len: "length (validatedParentLinks pl) = length pl"
    by (simp add: validatedParentLinks_map)
  have ids: "map link_id (validatedParentLinks pl) = map link_id pl"
    by (simp add: validatedParentLinks_map comp_def if_distrib [of link_id] cong: if_cong)
  have par: "map parentID (validatedParentLinks pl) =
     map (\<lambda>p. if (\<exists>p2 \<in> set pl. link_id p2 = parentID p \<and> link_id p2 \<noteq> link_id p)
               then parentID p else '''') pl"
    by (simp add: validatedParentLinks_map comp_def parentInBatch_iff if_distrib [of parentID]
        cong: if_cong)
  have ex: "validatedParentLinks
     [\<lparr>link_id = ''A'', parentID = ''B''\<rparr>, \<lparr>link_id = ''B'', parentID = ''''\<rparr>,
      \<lparr>link_id = ''C'', parentID = ''Z''\<rparr>] =
     [\<lparr>link_id = ''A'', parentID = ''B''\<rparr>, \<lparr>link_id = ''B'', parentID = ''''\<rparr>,
      \<lparr>link_id = ''C'', parentID = ''''\<rparr>]"
    by (simp add: validatedParentLinks_def)
  from len ids par ex show ?thesis by blast
qed

section \<open>Mounting a squashfs layer: results\<close>

lemma squashfsMount_missing:
  "drv_Stat a (squashfsSource a name) (hos st) = Some err \<Longrightarrow> squashfsMount a name st = (None, st)"
  by (simp add: squashfsMount_def)

lemma squashfsMount_mounted:
  assumes "drv_Stat a (squashfsSource a name) (hos st) = None"
    and "drv_Output a mountList (hos st) = (Inr out, os1)"
    and "strings_Contains out (squashfsLayer a name)"
  shows "squashfsMount a name st = (None, st\<lparr>hos := os1, commands := commands st @ [mountList]\<rparr>)"
  using assms by (simp add: squashfsMount_def run_def)

lemma squashfsMount_commands:
  "commands (snd (squashfsMount a name st)) =
     commands st @
     (case drv_Stat a (squashfsSource a name) (hos st) of
        Some err \<Rightarrow> []
      | None \<Rightarrow>
          (case fst (drv_Output a mountList (hos st)) of
             Inl err \<Rightarrow> [mountList]
           | Inr out \<Rightarrow>
               if strings_Contains out (squashfsLayer a name) then [mountList]
               else [mountList, mountSquashfs a name]))"
  by (simp add: squashfsMount_def run_def split: option.splits prod.splits sum.splits)

lemma mountSquashfs_not_list: "mountSquashfs a name \<noteq> mountList"
  by (simp add: mountSquashfs_def mountList_def)

text \<open>C10. When the squashfs source of a layer does not exist (\<^verbatim>\<open>Stat\<close> fails),
  \<^verbatim>\<open>squashfsMount\<close> returns nil and runs no command. When it exists, the squashfs
  mount command is among the commands run exactly when listing the mounts succeeded and
  its output does not contain the layer's diff path; for a layer whose diff path is in
  the mount table the call only lists the mounts and returns nil.\<close>

theorem squashfsMount_guarded:
  "(drv_Stat a (squashfsSource a name) (hos st) \<noteq> None \<longrightarrow>
      squashfsMount a name st = (None, st)) \<and>
   (drv_Stat a (squashfsSource a name) (hos st) = None \<longrightarrow>
      (mountSquashfs a name \<in> set (drop (length (commands st)) (commands (snd (squashfsMount a name st)))))
        = (\<exists>out. fst (drv_Output a mountList (hos st)) = Inr out \<and>
                 \<not> strings_Contains out (squashfsLayer a name))) \<and>
   (drv_Stat a (squashfsSource a name) (hos st) = None \<longrightarrow>
      (\<forall>out. fst (drv_Output a mountList (hos st)) = Inr out \<longrightarrow>
         strings_Contains out (squashfsLayer a name) \<longrightarrow>
         squashfsMount a name st =
           (None, st\<lparr>hos := snd (drv_Output a mountList (hos st)),
                     commands := commands st @ [mountList]\<rparr>)))"
proof (intro conjI impI allI)
  assume "drv_Stat a (squashfsSource a name) (hos st) \<noteq> None"
  then show "squashfsMount a name st = (None, st)"
    by (auto simp: squashfsMount_missing)
next
  assume ex: "drv_Stat a (squashfsSource a name) (hos st) = None"
  show "(mountSquashfs a name \<in> set (drop (length (commands st)) (commands (snd (squashfsMount a name st)))))
        = (\<exists>out. fst (drv_Output a mountList (hos st)) = Inr out \<and>
                 \<not> strings_Contains out (squashfsLayer a name))"
    using ex mountSquashfs_not_list [of a name]
    by (cases "fst (drv_Output a mountList (hos st))") (auto simp: squashfsMount_commands)
next
  fix out
  assume "drv_Stat a (squashfsSource a name) (hos st) = None"
    and "fst (drv_Output a mountList (hos st)) = Inr out"
    and "strings_Contains out (squashfsLayer a name)"
  then show "squashfsMount a name st =
           (None, st\<lparr>hos := snd (drv_Output a mountList (hos st)),
                     commands := commands st @ [mountList]\<rparr>)"
    using squashfsMount_mounted [of a name st out "snd (drv_Output a mountList (hos st))"]
    by (cases "drv_Output a mountList (hos st)") simp
qed

lemma example_first_mount:
  "squashfsMount example_driver ''l1'' \<lparr>hos = [], commands = []\<rparr> =
     (None, \<lparr>hos = [(''/r/squashfs/l1'', ''/r/diff/l1'')],
             commands = [mountList, mountSquashfs example_driver ''l1'']\<rparr>)"
  by (simp add: squashfsMount_def run_def example_driver_def squashfsSource_def squashfsLayer_def
      mountList_def mountSquashfs_def)

lemma example_listing_contains:
  "strings_Contains
     (''/r/squashfs/l1'' @ '' on '' @ ''/r/diff/l1'' @ '' type squashfs (ro)'' @ [CHR 0x0A])
     ''/r/diff/l1''"
  by simp

text \<open>The theorem at a concrete host: a layer without squashfs source runs nothing, and
  the second call for the layer \<open>l1\<close>, mounted by the first, only lists the mounts.\<close>

theorem squashfsMount_guarded_witness:
  "squashfsMount example_driver ''l2'' \<lparr>hos = [], commands = []\<rparr> = (None, \<lparr>hos = [], commands = []\<rparr>) \<and>
   squashfsMount example_driver ''l1''
     (snd (squashfsMount example_driver ''l1'' \<lparr>hos = [], commands = []\<rparr>)) =
     (None, \<lparr>hos = [(''/r/squashfs/l1'', ''/r/diff/l1'')],
             commands = [mountList, mountSquashfs example_driver ''l1'', mountList]\<rparr>)"
proof -
  let ?st1 = "\<lparr>hos = [(''/r/squashfs/l1'', ''/r/diff/l1'')],
               commands = [mountList, mountSquashfs example_driver ''l1'']\<rparr>"
  have a: "drv_Stat example_driver (squashfsSource example_driver ''l2'') (hos \<lparr>hos = [], commands = []\<rparr>) \<noteq> None"
    by (simp add: example_driver_def squashfsSource_def)
  have b: "drv_Stat example_driver (squashfsSource example_driver ''l1'') (hos ?st1) = None"
    by (simp add: example_driver_def squashfsSource_def)
  have c: "fst (drv_Output example_driver mountList (hos ?st1)) =
      Inr (''/r/squashfs/l1'' @ '' on '' @ ''/r/diff/l1'' @ '' type squashfs (ro)'' @ [CHR 0x0A])"
    by (simp add: example_driver_def mountList_def)
  have d: "squashfsLayer example_driver ''l1'' = ''/r/diff/l1''"
    by (simp add: example_driver_def squashfsLayer_def)
  have e: "snd (drv_Output example_driver mountList (hos ?st1)) = [(''/r/squashfs/l1'', ''/r/diff/l1'')]"
    by (simp add: example_driver_def mountList_def)
  from squashfsMount_guarded [of example_driver "''l2''" "\<lparr>hos = [], commands = []\<rparr>"] a
  have one: "squashfsMount example_driver ''l2'' \<lparr>hos = [], commands = []\<rparr> = (None, \<lparr>hos = [], commands = []\<rparr>)"
    by blast
  from squashfsMount_guarded [of example_driver "''l1''" ?st1] b c d example_listing_contains
  have "squashfsMount example_driver ''l1'' ?st1 =
      (None, ?st1\<lparr>hos := snd (drv_Output example_driver mountList (hos ?st1)),
                  commands := commands ?st1 @ [mountList]\<rparr>)"
    by metis
  with e have two: "squashfsMount example_driver ''l1'' ?st1 =
      (None, \<lparr>hos = [(''/r/squashfs/l1'', ''/r/diff/l1'')],
              commands = [mountList, mountSquashfs example_driver ''l1'', mountList]\<rparr>)"
    by simp
  from one two show ?thesis
    by (simp add: example_first_mount)
qed

section \<open>The structural parent check: results\<close>





lemma setParentID_missing:
  assumes "is_Get X ident (world s) = Inl e \<or> (\<exists>img. is_Get X ident (world s) = Inr img \<and> is_Get X pid (world s) = Inl e)"
  shows "setParentID X ident pid s = (Inl e, s)"
  using assms by (auto simp: setParentID_def bnd_def readE_def)



section \<open>The buffered reader: results\<close>

lemma Read_keeps_stream:
  assumes "Read b k = (p, b')"
  shows "p @ buf (brc_r b') @ rd (brc_r b') = buf (brc_r b) @ rd (brc_r b)"
proof -
  have "take k (take (min bufSize (length (rd (brc_r b)))) (rd (brc_r b))) @
        drop k (take (min bufSize (length (rd (brc_r b)))) (rd (brc_r b))) @
        drop (min bufSize (length (rd (brc_r b)))) (rd (brc_r b)) = rd (brc_r b)"
    by (metis append_assoc append_take_drop_id)
  with assms show ?thesis
    by (auto simp: Read_def bufio_Read_def fill_def Let_def split: if_splits)
qed

lemma ReadAll_whole_stream:
  "0 < k \<Longrightarrow> ReadAll k b = buf (brc_r b) @ rd (brc_r b)"
proof (induction k b rule: ReadAll.induct)
  case (1 k b)
  show ?case
  proof (cases "buf (brc_r b) = [] \<and> rd (brc_r b) = []")
    case True
    then show ?thesis by (subst ReadAll.simps) simp
  next
    case False
    obtain p b' where rd: "Read b k = (p, b')" by (cases "Read b k")
    from "1.prems" False have go: "\<not> (k = 0 \<or> (buf (brc_r b) = [] \<and> rd (brc_r b) = []))"
      by simp
    from "1.IH" [OF go rd [symmetric] "1.prems"]
    have "ReadAll k b' = buf (brc_r b') @ rd (brc_r b')" .
    with rd go Read_keeps_stream [OF rd] show ?thesis
      by (subst ReadAll.simps) simp
  qed
qed


lemma Peek_short:
  assumes "length inTar < n"
  shows "\<exists>e. fst (Peek \<lparr>brc_r = NewReader inTar\<rparr> n) = Inl e"
  using assms
  by (auto simp: Peek_def bufio_Peek_def NewReader_def fill_def Let_def bufSize_def min_def)


lemma ReadAll_fresh: "0 < k \<Longrightarrow> ReadAll k \<lparr>brc_r = NewReader inTar\<rparr> = inTar"
  by (simp add: ReadAll_whole_stream NewReader_def)




lemma Load_structured_fresh:
  "Load_structured L X \<lparr>brc_r = NewReader inTar\<rparr> tmpDir quiet (s\<lparr>world := w, defers := ds\<rparr>) =
     (case Untar X inTar tmpDir w of
        (Inl e, w') \<Rightarrow> Some (Inl e, s\<lparr>world := w', defers := ds\<rparr>)
      | (Inr sc, w') \<Rightarrow> Load_unpacked L X tmpDir quiet sc (s\<lparr>world := w', defers := ds\<rparr>))"
  by (cases s)
    (simp add: Load_structured_def call_def ReadAll_fresh copyBufSize_def
      split: prod.splits sum.splits)


lemmas monad_defs = bnd_def return_def throw_def readE_def emit_def deferCall_def call_def
  callE_def ignoring_def returning_def

section \<open>The manifest path: results\<close>

lemma guarded_from_append:
  "guarded_from m (A @ B) = (guarded_from m A \<and> guarded_from (if A = [] then m else is_miss (last A)) B)"
  by (induction A arbitrary: m) auto

lemma guarded_from_weaken: "guarded_from False B \<Longrightarrow> guarded_from m B"
  by (cases B) auto

lemma reg_guarded_append: "reg_guarded A \<Longrightarrow> reg_guarded B \<Longrightarrow> reg_guarded (A @ B)"
  by (simp add: reg_guarded_def guarded_from_append guarded_from_weaken)

lemma guarded_from_no_register: "list_all (\<lambda>e. \<not> is_register e) B \<Longrightarrow> guarded_from m B"
  by (induction B arbitrary: m) auto

lemma reg_guarded_no_register: "list_all (\<lambda>e. \<not> is_register e) B \<Longrightarrow> reg_guarded B"
  by (simp add: reg_guarded_def guarded_from_no_register)

lemma acquired_append [simp]: "acquired (A @ B) = acquired A @ acquired B"
  by (simp add: acquired_def)

lemma released_append [simp]: "released (A @ B) = released A @ released B"
  by (simp add: released_def)

lemma created_ids_append [simp]: "created_ids (A @ B) = created_ids A @ created_ids B"
  by (simp add: created_ids_def)

lemma writes_append [simp]: "writes (A @ B) = writes A @ writes B"
  by (simp add: writes_def)

lemma bnd_cases:
  assumes "bnd m f s = (r, s')"
  obtains (err) e where "m s = (Inl e, s')" and "r = Inl e"
        | (ok) x s1 where "m s = (Inr x, s1)" and "f x s1 = (r, s')"
  using assms by (auto simp: bnd_def split: prod.splits sum.splits)

lemma loadLayer_sum:
  assumes "loadLayer L X filename rootFS ident foreignSrc quiet s = (r, s')"
  shows "defers s' = defers s \<and> tmpfs s' = tmpfs s \<and> loadedMap s' = loadedMap s \<and>
         (log s' = log s \<and> isl r \<or> log s' = log s @ [EvRegister (RootFS_ChainID L rootFS) r])"
  using assms
  by (auto simp: loadLayer_def monad_defs split: sum.splits prod.splits if_splits option.splits)

lemma getOrLoadLayer_sum:
  assumes "getOrLoadLayer L X layerPath rootFS diffID foreignSrc quiet s = (r, s')"
  shows "defers s' = defers s \<and> tmpfs s' = tmpfs s \<and> loadedMap s' = loadedMap s \<and>
         (\<exists>ev. log s' = log s @ ev \<and> reg_guarded ev \<and> list_all is_layer_event ev \<and>
               acquired ev = (case r of Inr l \<Rightarrow> [l] | Inl e \<Rightarrow> []))"
proof -
  obtain g w where g: "ls_Get X (RootFS_ChainID L (Append rootFS diffID)) (world s) = (g, w)"
    by (cases "ls_Get X (RootFS_ChainID L (Append rootFS diffID)) (world s)")
  let ?c = "RootFS_ChainID L (Append rootFS diffID)"
  let ?s1 = "s\<lparr>world := w, log := log s @ [EvGet ?c g]\<rparr>"
  show ?thesis
  proof (cases g)
    case (Inr l)
    with assms g have "r = Inr l" and "s' = ?s1"
      by (auto simp: getOrLoadLayer_def call_def)
    with Inr show ?thesis
      by (auto simp: reg_guarded_def is_register_def is_layer_event_def acquired_def acquired_by_def)
  next
    case (Inl e)
    with assms g have ll: "loadLayer L X layerPath rootFS diffID foreignSrc quiet ?s1 = (r, s')"
      by (auto simp: getOrLoadLayer_def call_def)
    from loadLayer_sum [OF ll] Inl show ?thesis
      by (auto simp: reg_guarded_def is_register_def is_miss_def is_layer_event_def acquired_def
          acquired_by_def isl_def split: sum.splits)
  qed
qed

lemma steps_refl: "steps s s []"
  by (simp add: steps_def reg_guarded_def acquired_def)

lemma steps_trans: "steps s s1 ev1 \<Longrightarrow> steps s1 s2 ev2 \<Longrightarrow> steps s s2 (ev1 @ ev2)"
  by (simp add: steps_def reg_guarded_append)

lemma layer_event_manifest: "is_layer_event e \<Longrightarrow> is_manifest_event e"
  by (auto simp: is_layer_event_def is_manifest_event_def split: event.splits)

lemma layer_events_manifest: "list_all is_layer_event ev \<Longrightarrow> list_all is_manifest_event ev"
  by (induction ev) (auto simp: layer_event_manifest)

lemma layer_events_quiet:
  "list_all is_layer_event ev \<Longrightarrow> created_ids ev = [] \<and> writes ev = [] \<and> released ev = []"
  by (induction ev)
    (auto simp: is_layer_event_def created_ids_def writes_def released_def split: event.splits)

lemma Load_layers_sum:
  "Load_layers L X tmpDir quiet m i ds rootFS s = (r, s') \<Longrightarrow>
   \<exists>ev. steps s s' ev \<and> list_all is_layer_event ev"
proof (induction ds arbitrary: i rootFS s)
  case Nil
  then have "s' = s" by (simp add: return_def)
  then show ?case using steps_refl [of s] by auto
next
  case (Cons d ds)
  from Cons.prems
  have run: "bnd (readE (\<lambda>s. if i < length (Layers m) then sc_safePath (tmpfs s) tmpDir (Layers m ! i)
                       else Inl ErrPanic)) (\<lambda>layerPath.
     bnd (getOrLoadLayer L X layerPath rootFS d (sourceOf m d) quiet) (\<lambda>newLayer.
     bnd (deferCall (DReleaseAndLog newLayer)) (\<lambda>_.
     if d \<noteq> layer_DiffID newLayer
     then throw (ErrInvalidDiffID i d (layer_DiffID newLayer))
     else Load_layers L X tmpDir quiet m (Suc i) ds (Append rootFS d)))) s = (r, s')"
    by simp
  then show ?case
  proof (cases rule: bnd_cases)
    case (err e)
    then have "s' = s" by (simp add: readE_def)
    then show ?thesis using steps_refl [of s] by auto
  next
    case (ok layerPath s1)
    then have s1: "s1 = s" by (simp add: readE_def)
    from ok(2) show ?thesis
    proof (cases rule: bnd_cases)
      case (err e)
      from getOrLoadLayer_sum [OF err(1) [unfolded s1]]
      show ?thesis by (auto simp: steps_def layer_events_manifest)
    next
      case (ok newLayer s2)
      from getOrLoadLayer_sum [OF ok(1) [unfolded s1]]
      obtain ev where ev: "log s2 = log s @ ev" "reg_guarded ev" "list_all is_layer_event ev"
        "acquired ev = [newLayer]" "defers s2 = defers s" "tmpfs s2 = tmpfs s"
        by auto
      let ?s3 = "s2\<lparr>defers := DReleaseAndLog newLayer # defers s2\<rparr>"
      have st: "steps s ?s3 ev"
        using ev by (simp add: steps_def layer_events_manifest)
      show ?thesis
      proof (cases "d \<noteq> layer_DiffID newLayer")
        case True
        with ok(2) have "s' = ?s3"
          by (simp add: bnd_def deferCall_def throw_def)
        with st ev(3) show ?thesis by auto
      next
        case False
        with ok(2) have "Load_layers L X tmpDir quiet m (Suc i) ds (Append rootFS d) ?s3 = (r, s')"
          by (simp add: bnd_def deferCall_def)
        from Cons.IH [OF this] obtain ev2 where "steps ?s3 s' ev2" "list_all is_layer_event ev2"
          by auto
        with st ev(3) steps_trans [of s ?s3 ev s' ev2] show ?thesis
          by (intro exI [of _ "ev @ ev2"]) simp
      qed
    qed
  qed
qed

lemma plain_events_quiet:
  "list_all is_plain_event ev \<Longrightarrow>
   created_ids ev = [] \<and> released ev = [] \<and> acquired ev = [] \<and> reg_guarded ev \<and>
   list_all is_manifest_event ev \<and> list_all tag_line (writes ev)"
proof (induction ev)
  case Nil
  then show ?case
    by (simp add: created_ids_def released_def acquired_def reg_guarded_def writes_def)
next
  case (Cons e ev)
  then have e: "is_plain_event e" and IH: "created_ids ev = [] \<and> released ev = [] \<and> acquired ev = [] \<and>
      reg_guarded ev \<and> list_all is_manifest_event ev \<and> list_all tag_line (writes ev)"
    by simp_all
  from e have "\<not> is_register e" "created_ids [e] = []" "released [e] = []" "acquired [e] = []"
    "is_manifest_event e" "list_all tag_line (writes [e])"
    by (auto simp: is_plain_event_def is_register_def created_ids_def released_def acquired_def
        acquired_by_def is_manifest_event_def writes_def split: event.splits)
  moreover from this(1) have "reg_guarded [e]"
    by (simp add: reg_guarded_def)
  ultimately show ?case
    using IH created_ids_append [of "[e]" ev] released_append [of "[e]" ev]
      acquired_append [of "[e]" ev] writes_append [of "[e]" ev] reg_guarded_append [of "[e]" ev]
    by simp
qed

lemma steps_plain:
  "log s' = log s @ ev \<Longrightarrow> list_all is_plain_event ev \<Longrightarrow> defers s' = defers s \<Longrightarrow>
   tmpfs s' = tmpfs s \<Longrightarrow> steps s s' ev"
  using plain_events_quiet [of ev] by (simp add: steps_def)

lemma setLoadedTag_sum:
  assumes "setLoadedTag L X ref imgID s = (r, s')"
  shows "\<exists>ev. log s' = log s @ ev \<and> list_all is_plain_event ev \<and> defers s' = defers s \<and>
              tmpfs s' = tmpfs s"
proof -
  have tl: "tag_line (alreadyExistsLine x y)" for x y
    by (simp add: tag_line_def alreadyExistsLine_def)
  from assms show ?thesis
    by (auto simp: setLoadedTag_def monad_defs is_plain_event_def tl
        split: sum.splits prod.splits if_splits option.splits)
qed

lemma Load_tags_sum:
  "Load_tags L X imgID tags cnt s = (r, s') \<Longrightarrow>
   \<exists>ev. log s' = log s @ ev \<and> list_all is_plain_event ev \<and> defers s' = defers s \<and>
        tmpfs s' = tmpfs s \<and> (\<forall>c. r = Inr c \<longrightarrow> c = cnt + length tags)"
proof (induction tags arbitrary: cnt s)
  case Nil
  then show ?case by (auto simp: return_def)
next
  case (Cons repoTag rest)
  show ?case
  proof (cases "ParseNormalizedNamed L repoTag")
    case (Inl e)
    with Cons.prems show ?thesis
      by (auto simp: bnd_def readE_def)
  next
    case (Inr nm)
    obtain n tg where nm: "nm = Named n tg" by (cases nm)
    show ?thesis
    proof (cases tg)
      case None
      with Cons.prems Inr nm show ?thesis
        by (auto simp: bnd_def readE_def throw_def)
    next
      case (Some t)
      obtain r0 s1 where st: "setLoadedTag L X nm imgID s = (r0, s1)"
        by (cases "setLoadedTag L X nm imgID s")
      from setLoadedTag_sum [OF st]
      obtain ev1 where ev1: "log s1 = log s @ ev1" "list_all is_plain_event ev1"
        "defers s1 = defers s" "tmpfs s1 = tmpfs s" by auto
      let ?w = "EvWrite (loadedImageLine (FamiliarString L nm))"
      let ?s2 = "s1\<lparr>log := log s1 @ [?w]\<rparr>"
      have pw: "is_plain_event ?w"
        by (simp add: is_plain_event_def tag_line_def loadedImageLine_def)
      from Cons.prems Inr nm Some st
      have "Load_tags L X imgID rest (Suc cnt) ?s2 = (r, s')"
        by (simp add: bnd_def readE_def ignoring_def emit_def)
      from Cons.IH [OF this]
      obtain ev2 where ev2: "log s' = log ?s2 @ ev2" "list_all is_plain_event ev2"
        "defers s' = defers ?s2" "tmpfs s' = tmpfs ?s2" "\<forall>c. r = Inr c \<longrightarrow> c = Suc cnt + length rest"
        by auto
      with ev1 pw show ?thesis
        by (intro exI [of _ "ev1 @ [?w] @ ev2"]) simp
    qed
  qed
qed

lemma created_ids_simps [simp]:
  "created_ids [] = []"
  "created_ids (e # es) = (case e of EvCreate c (Inr i) \<Rightarrow> [i] | _ \<Rightarrow> []) @ created_ids es"
  by (simp_all add: created_ids_def)

lemma steps_created:
  "steps (s :: 'w state) (s\<lparr>world := w, log := log s @ [EvCreate c r]\<rparr>) [EvCreate c r]"
  by (simp add: steps_def reg_guarded_def is_register_def is_manifest_event_def acquired_def
      acquired_by_def)

lemma Load_item_sum:
  assumes "Load_item L X tmpDir quiet m (links, ids) s = (r, s')"
  shows "\<exists>ev. steps s s' ev \<and>
     (\<forall>links' ids' cnt'. r = Inr (links', ids', cnt') \<longrightarrow>
        (\<exists>imgID. created_ids ev = [imgID] \<and> ids' = ids @ loadedImageIDLine imgID \<and>
                  links' = links @ [\<lparr>link_id = imgID, parentID = Parent m\<rparr>] \<and>
                  cnt' = length (RepoTags m)))"
proof -
  have stop: "(Inl e, s) = (r, s') \<Longrightarrow> ?thesis" for e
    using steps_refl [of s] by auto
  show ?thesis
  proof (cases "sc_safePath (tmpfs s) tmpDir (Config m)")
    case (Inl e)
    with assms show ?thesis by (intro stop [of e]) (simp add: Load_item_def bnd_def readE_def)
  next
    case configPath: (Inr configPath)
    show ?thesis
    proof (cases "sc_files (tmpfs s) configPath")
      case (Inl e)
      with assms configPath show ?thesis
        by (intro stop [of e]) (simp add: Load_item_def bnd_def readE_def)
    next
      case config: (Inr config)
      show ?thesis
      proof (cases "NewFromJSON L config")
        case (Inl e)
        with assms configPath config show ?thesis
          by (intro stop [of e]) (simp add: Load_item_def bnd_def readE_def)
      next
        case img: (Inr img)
        show ?thesis
        proof (cases "length (Layers m) \<noteq> length (DiffIDs (image_RootFS img))")
          case True
          with assms configPath config img show ?thesis
            by (intro stop [of "ErrLayersLengthMismatch (length (Layers m)) (length (DiffIDs (image_RootFS img)))"])
              (simp add: Load_item_def bnd_def readE_def throw_def)
        next
          case False
          obtain r1 s1 where ll: "Load_layers L X tmpDir quiet m 0 (DiffIDs (image_RootFS img))
              ((image_RootFS img)\<lparr>DiffIDs := []\<rparr>) s = (r1, s1)"
            by (cases "Load_layers L X tmpDir quiet m 0 (DiffIDs (image_RootFS img))
              ((image_RootFS img)\<lparr>DiffIDs := []\<rparr>) s")
          from Load_layers_sum [OF ll] obtain ev1 where ev1: "steps s s1 ev1" "list_all is_layer_event ev1"
            by auto
          from assms configPath config img False ll
          have rest: "(case r1 of Inl e \<Rightarrow> (Inl e, s1)
              | Inr rootFS \<Rightarrow>
                 bnd (call (is_Create X config) (\<lambda>r. [EvCreate config r])) (\<lambda>imgID.
                 bnd (Load_tags L X imgID (RepoTags m) 0) (\<lambda>imageRefCount.
                 bnd (emit (EvImageEvent imgID)) (\<lambda>_.
                 return (links @ [\<lparr>link_id = imgID, parentID = Parent m\<rparr>],
                   ids @ loadedImageIDLine imgID, imageRefCount)))) s1) = (r, s')"
            by (simp add: Load_item_def bnd_def readE_def split: sum.splits)
          show ?thesis
          proof (cases r1)
            case (Inl e)
            with rest ev1 show ?thesis by auto
          next
            case (Inr rootFS)
            obtain c w where cr: "is_Create X config (world s1) = (c, w)"
              by (cases "is_Create X config (world s1)")
            let ?s2 = "s1\<lparr>world := w, log := log s1 @ [EvCreate config c]\<rparr>"
            have st2: "steps s ?s2 (ev1 @ [EvCreate config c])"
              using steps_trans [OF ev1(1) steps_created [where s = s1 and w = w and c = config and r = c]] .
            show ?thesis
            proof (cases c)
              case (Inl e)
              with rest Inr cr have "s' = ?s2" "r = Inl e"
                by (simp_all add: bnd_def call_def)
              with st2 show ?thesis by auto
            next
              case imgID: (Inr imgID)
              obtain r3 s3 where lt: "Load_tags L X imgID (RepoTags m) 0 ?s2 = (r3, s3)"
                by (cases "Load_tags L X imgID (RepoTags m) 0 ?s2")
              from Load_tags_sum [OF lt]
              obtain ev3 where ev3: "log s3 = log ?s2 @ ev3" "list_all is_plain_event ev3"
                "defers s3 = defers ?s2" "tmpfs s3 = tmpfs ?s2" "\<forall>c. r3 = Inr c \<longrightarrow> c = 0 + length (RepoTags m)"
                by auto
              have st3: "steps s s3 (ev1 @ [EvCreate config c] @ ev3)"
                using steps_trans [OF st2 steps_plain [OF ev3(1,2,3,4)]] by simp
              have ids3: "created_ids (ev1 @ [EvCreate config c] @ ev3) = [imgID]"
                using layer_events_quiet [OF ev1(2)] plain_events_quiet [OF ev3(2)] imgID
                by simp
              show ?thesis
              proof (cases r3)
                case (Inl e)
                with rest Inr cr imgID lt have "s' = s3" "r = Inl e"
                  by (simp_all add: bnd_def call_def)
                with st3 show ?thesis by auto
              next
                case cnt: (Inr cnt)
                let ?s4 = "s3\<lparr>log := log s3 @ [EvImageEvent imgID]\<rparr>"
                from rest Inr cr imgID lt cnt
                have fin: "s' = ?s4" "r = Inr (links @ [\<lparr>link_id = imgID, parentID = Parent m\<rparr>],
                   ids @ loadedImageIDLine imgID, cnt)"
                  by (simp_all add: bnd_def call_def emit_def return_def)
                have "steps s3 ?s4 [EvImageEvent imgID]"
                  by (intro steps_plain) (simp_all add: is_plain_event_def)
                from steps_trans [OF st3 this]
                have st4: "steps s ?s4 (ev1 @ [EvCreate config c] @ ev3 @ [EvImageEvent imgID])"
                  by simp
                have "created_ids (ev1 @ [EvCreate config c] @ ev3 @ [EvImageEvent imgID]) = [imgID]"
                  using ids3 by simp
                with st4 fin ev3(5) cnt show ?thesis
                  by (intro exI [of _ "ev1 @ [EvCreate config c] @ ev3 @ [EvImageEvent imgID]"]) simp
              qed
            qed
          qed
        qed
      qed
    qed
  qed
qed

lemma Load_items_sum:
  "Load_items L X tmpDir quiet ms (links, ids, cnt) s = (r, s') \<Longrightarrow>
   \<exists>ev. steps s s' ev \<and>
     (\<forall>links' ids' cnt'. r = Inr (links', ids', cnt') \<longrightarrow>
        ids' = ids @ concat (map loadedImageIDLine (created_ids ev)) \<and>
        length (created_ids ev) = length ms \<and>
        cnt' = (if ms = [] then cnt else length (RepoTags (last ms))))"
proof (induction ms arbitrary: links ids cnt s)
  case Nil
  then show ?case using steps_refl [of s] by (auto simp: return_def)
next
  case (Cons m ms)
  obtain r1 s1 where it: "Load_item L X tmpDir quiet m (links, ids) s = (r1, s1)"
    by (cases "Load_item L X tmpDir quiet m (links, ids) s")
  from Load_item_sum [OF it] obtain ev1 where ev1: "steps s s1 ev1"
    "\<forall>links' ids' cnt'. r1 = Inr (links', ids', cnt') \<longrightarrow>
        (\<exists>imgID. created_ids ev1 = [imgID] \<and> ids' = ids @ loadedImageIDLine imgID \<and>
                  links' = links @ [\<lparr>link_id = imgID, parentID = Parent m\<rparr>] \<and>
                  cnt' = length (RepoTags m))"
    by (elim exE conjE)
  show ?case
  proof (cases r1)
    case (Inl e)
    with Cons.prems it have "s' = s1" "r = Inl e"
      by (simp_all add: bnd_def)
    with ev1(1) show ?thesis by auto
  next
    case (Inr acc1)
    obtain links1 ids1 cnt1 where acc1: "acc1 = (links1, ids1, cnt1)" by (cases acc1)
    with ev1(2) Inr obtain imgID where one: "created_ids ev1 = [imgID]"
      "ids1 = ids @ loadedImageIDLine imgID" "cnt1 = length (RepoTags m)"
      by auto
    from Cons.prems it Inr acc1 have "Load_items L X tmpDir quiet ms (links1, ids1, cnt1) s1 = (r, s')"
      by (simp add: bnd_def)
    from Cons.IH [OF this] obtain ev2 where ev2: "steps s1 s' ev2"
      "\<forall>links' ids' cnt'. r = Inr (links', ids', cnt') \<longrightarrow>
        ids' = ids1 @ concat (map loadedImageIDLine (created_ids ev2)) \<and>
        length (created_ids ev2) = length ms \<and>
        cnt' = (if ms = [] then cnt1 else length (RepoTags (last ms)))"
      by (elim exE conjE)
    have st: "steps s s' (ev1 @ ev2)"
      using steps_trans [OF ev1(1) ev2(1)] .
    have "\<forall>links' ids' cnt'. r = Inr (links', ids', cnt') \<longrightarrow>
        ids' = ids @ concat (map loadedImageIDLine (created_ids (ev1 @ ev2))) \<and>
        length (created_ids (ev1 @ ev2)) = length (m # ms) \<and>
        cnt' = (if m # ms = [] then cnt else length (RepoTags (last (m # ms))))"
      using ev2(2) one by (cases "ms = []") auto
    with st show ?thesis by blast
  qed
qed

lemma setParentID_sum:
  assumes "setParentID X ident pid s = (r, s')"
  shows "\<exists>ev. log s' = log s @ ev \<and> list_all is_plain_event ev \<and> defers s' = defers s \<and>
              tmpfs s' = tmpfs s"
  using assms
  by (auto simp: setParentID_def monad_defs is_plain_event_def
      split: sum.splits prod.splits if_splits option.splits bool.splits)

lemma Load_parents_sum:
  "Load_parents X ps s = (r, s') \<Longrightarrow>
   \<exists>ev. log s' = log s @ ev \<and> list_all is_plain_event ev \<and> defers s' = defers s \<and>
        tmpfs s' = tmpfs s"
proof (induction ps arbitrary: s)
  case Nil
  then show ?case by (auto simp: return_def)
next
  case (Cons p ps)
  show ?case
  proof (cases "parentID p = []")
    case True
    with Cons show ?thesis by simp
  next
    case False
    obtain r1 s1 where sp: "setParentID X (link_id p) (parentID p) s = (r1, s1)"
      by (cases "setParentID X (link_id p) (parentID p) s")
    from setParentID_sum [OF sp] obtain ev1 where ev1: "log s1 = log s @ ev1"
      "list_all is_plain_event ev1" "defers s1 = defers s" "tmpfs s1 = tmpfs s"
      by auto
    show ?thesis
    proof (cases r1)
      case (Inl e)
      with Cons.prems False sp have "s' = s1" by (simp add: bnd_def)
      with ev1 show ?thesis by auto
    next
      case (Inr u)
      with Cons.prems False sp have "Load_parents X ps s1 = (r, s')" by (simp add: bnd_def)
      from Cons.IH [OF this] obtain ev2 where "log s' = log s1 @ ev2"
        "list_all is_plain_event ev2" "defers s' = defers s1" "tmpfs s' = tmpfs s1"
        by auto
      with ev1 show ?thesis
        by (intro exI [of _ "ev1 @ ev2"]) simp
    qed
  qed
qed

lemma Load_manifest_sum:
  assumes "Load_manifest L X tmpDir quiet ms s = (r, s')"
  obtains ev fin where "log s' = log s @ ev @ fin" and "reg_guarded ev"
    and "list_all is_manifest_event ev"
    and "defers s' = map DReleaseAndLog (rev (acquired ev)) @ defers s"
    and "tmpfs s' = tmpfs s"
    and "fin = [] \<or> (r = Inr () \<and> fin = [EvWrite (concat (map loadedImageIDLine (created_ids ev)))])"
    and "r = Inr () \<Longrightarrow> length (created_ids ev) = length ms"
    and "r = Inr () \<Longrightarrow> (fin \<noteq> []) = (ms = [] \<or> RepoTags (last ms) = [])"
proof -
  obtain r1 s1 where it: "Load_items L X tmpDir quiet ms ([], [], 0) s = (r1, s1)"
    by (cases "Load_items L X tmpDir quiet ms ([], [], 0) s")
  from Load_items_sum [OF it] obtain ev1 where ev1: "steps s s1 ev1"
    "\<forall>links' ids' cnt'. r1 = Inr (links', ids', cnt') \<longrightarrow>
        ids' = [] @ concat (map loadedImageIDLine (created_ids ev1)) \<and>
        length (created_ids ev1) = length ms \<and>
        cnt' = (if ms = [] then 0 else length (RepoTags (last ms)))"
    by (elim exE conjE)
  show ?thesis
  proof (cases r1)
    case (Inl e)
    with assms it have "s' = s1" "r = Inl e"
      by (simp_all add: Load_manifest_def bnd_def)
    with ev1(1) that [of ev1 "[]"] show ?thesis
      by (simp add: steps_def)
  next
    case (Inr acc1)
    obtain links1 ids1 cnt1 where acc1: "acc1 = (links1, ids1, cnt1)" by (cases acc1)
    with ev1(2) Inr have acc: "ids1 = concat (map loadedImageIDLine (created_ids ev1))"
      "length (created_ids ev1) = length ms"
      "cnt1 = (if ms = [] then 0 else length (RepoTags (last ms)))"
      by auto
    obtain r2 s2 where lp: "Load_parents X (validatedParentLinks links1) s1 = (r2, s2)"
      by (cases "Load_parents X (validatedParentLinks links1) s1")
    from Load_parents_sum [OF lp] obtain ev2 where ev2: "log s2 = log s1 @ ev2"
      "list_all is_plain_event ev2" "defers s2 = defers s1" "tmpfs s2 = tmpfs s1"
      by auto
    from steps_trans [OF ev1(1) steps_plain [OF ev2]] have st: "steps s s2 (ev1 @ ev2)" .
    have ids: "created_ids (ev1 @ ev2) = created_ids ev1"
      using plain_events_quiet [OF ev2(2)] by simp
    show ?thesis
    proof (cases r2)
      case (Inl e)
      with assms it Inr acc1 lp have "s' = s2" "r = Inl e"
        by (simp_all add: Load_manifest_def bnd_def)
      with st that [of "ev1 @ ev2" "[]"] show ?thesis
        by (simp add: steps_def)
    next
      case u: (Inr u)
      show ?thesis
      proof (cases "cnt1 = 0")
        case True
        with assms it Inr acc1 lp u have fin: "s' = s2\<lparr>log := log s2 @ [EvWrite ids1]\<rparr>" "r = Inr ()"
          by (simp_all add: Load_manifest_def bnd_def emit_def)
        from True acc(3) have "ms = [] \<or> RepoTags (last ms) = []"
          by (auto split: if_splits)
        with st fin acc ids that [of "ev1 @ ev2" "[EvWrite ids1]"] show ?thesis
          by (simp add: steps_def)
      next
        case False
        with assms it Inr acc1 lp u have fin: "s' = s2" "r = Inr ()"
          by (simp_all add: Load_manifest_def bnd_def return_def)
        from False acc(3) have "\<not> (ms = [] \<or> RepoTags (last ms) = [])"
          by (auto split: if_splits)
        with st fin acc ids that [of "ev1 @ ev2" "[]"] show ?thesis
          by (simp add: steps_def)
      qed
    qed
  qed
qed

lemma run_defers_log:
  "log (run_defers X ds s) = log s @ map EvRelease (to_release ds)"
proof (induction ds arbitrary: s)
  case Nil
  then show ?case by (simp add: to_release_def)
next
  case (Cons d ds)
  show ?case
    by (cases d) (simp_all add: Cons.IH to_release_def)
qed

lemma to_release_map [simp]: "to_release (map DReleaseAndLog ls @ ds) = ls @ to_release ds"
  by (induction ls) (simp_all add: to_release_def)

lemma manifest_events_no_release: "list_all is_manifest_event ev \<Longrightarrow> released ev = []"
  by (induction ev) (auto simp: is_manifest_event_def released_def split: event.splits)

lemma layer_events_no_create: "list_all is_layer_event ev \<Longrightarrow> filter is_create ev = []"
  by (induction ev) (auto simp: is_layer_event_def is_create_def split: event.splits)

lemma getOrLoadLayer_hit:
  assumes "ls_Get X (RootFS_ChainID L (Append rootFS diffID)) (world st) = (Inr l, w)"
  shows "getOrLoadLayer L X layerPath rootFS diffID src quiet st =
     (Inr l, st\<lparr>world := w, log := log st @ [EvGet (RootFS_ChainID L (Append rootFS diffID)) (Inr l)]\<rparr>)"
  using assms by (simp add: getOrLoadLayer_def call_def)

lemma run_defers_append:
  "run_defers X (ds @ ds') s = run_defers X ds' (run_defers X ds s)"
  by (induction ds arbitrary: s) simp_all

lemma run_defers_releases:
  "run_defers X (map DReleaseAndLog ls) s =
     s\<lparr>world := release_layers X ls (world s), log := log s @ map EvRelease ls\<rparr>"
  by (induction ls arbitrary: s) simp_all

lemma run_defers_world:
  "world s1 = world s2 \<Longrightarrow> world (run_defers X ds s1) = world (run_defers X ds s2)"
proof (induction ds arbitrary: s1 s2)
  case Nil
  then show ?case by simp
next
  case (Cons d ds)
  from Cons.prems have "world (run_deferred X d s1) = world (run_deferred X d s2)"
    by (cases d) simp_all
  from Cons.IH [OF this] show ?case
    by simp
qed

text \<open>C8. The manifest path from a fresh log, on any exit (\<open>r\<close> is a result or an
  error): every registration in the log comes directly after a lookup that failed, so a
  position whose chain the store resolves registers nothing (for such a position
  \<^verbatim>\<open>getOrLoadLayer\<close> is the lookup alone and returns the stored layer); nothing is
  released while images are built; every layer acquired, found or registered, has its
  release on the stack of deferred calls, and \<^verbatim>\<open>Load\<close> runs them when it returns,
  last acquired first: the log ends with these releases, and the store that
  \<^verbatim>\<open>Load\<close> leaves is the store of the manifest path after \<^verbatim>\<open>Release\<close> of each
  acquired layer, last acquired first, and then the calls deferred earlier.\<close>

theorem manifest_layers_reused_and_released:
  assumes "Load_manifest L X tmpDir quiet manifest s = (r, s')" and "log s = []"
  shows "reg_guarded (log s') \<and> released (log s') = [] \<and>
         defers s' = map DReleaseAndLog (rev (acquired (log s'))) @ defers s \<and>
         log (snd (Load_return X s0 (r, s'))) =
           log s' @ map EvRelease (rev (acquired (log s')) @ to_release (defers s)) \<and>
         world (snd (Load_return X s0 (r, s'))) =
           world (run_defers X (defers s)
                    (s'\<lparr>world := release_layers X (rev (acquired (log s'))) (world s')\<rparr>)) \<and>
         (\<forall>st rootFS diffID layerPath src l w.
            ls_Get X (RootFS_ChainID L (Append rootFS diffID)) (world st) = (Inr l, w) \<longrightarrow>
            getOrLoadLayer L X layerPath rootFS diffID src quiet st =
              (Inr l, st\<lparr>world := w,
                         log := log st @ [EvGet (RootFS_ChainID L (Append rootFS diffID)) (Inr l)]\<rparr>))"
proof (rule Load_manifest_sum [OF assms(1)])
  fix ev fin
  assume lg: "log s' = log s @ ev @ fin" and g: "reg_guarded ev" and me: "list_all is_manifest_event ev"
    and df: "defers s' = map DReleaseAndLog (rev (acquired ev)) @ defers s"
    and "tmpfs s' = tmpfs s"
    and fin: "fin = [] \<or> (r = Inr () \<and> fin = [EvWrite (concat (map loadedImageIDLine (created_ids ev)))])"
  from fin have finq: "reg_guarded fin" "released fin = []" "acquired fin = []"
    by (auto simp: reg_guarded_def is_register_def released_def acquired_def acquired_by_def)
  from lg assms(2) have lg': "log s' = ev @ fin" by simp
  have 1: "reg_guarded (log s')"
    using g finq(1) by (simp add: lg' reg_guarded_append)
  have 2: "released (log s') = []"
    using manifest_events_no_release [OF me] finq(2) by (simp add: lg')
  have acq: "acquired (log s') = acquired ev"
    using finq(3) by (simp add: lg')
  have 3: "defers s' = map DReleaseAndLog (rev (acquired (log s'))) @ defers s"
    using df acq by simp
  have 4: "log (snd (Load_return X s0 (r, s'))) =
           log s' @ map EvRelease (rev (acquired (log s')) @ to_release (defers s))"
    using 3 by (simp add: Load_return_def run_defers_log)
  have "world (run_defers X (map DReleaseAndLog (rev (acquired (log s')))) s') =
        world (s'\<lparr>world := release_layers X (rev (acquired (log s'))) (world s')\<rparr>)"
    by (simp add: run_defers_releases)
  then have "world (run_defers X (defers s) (run_defers X (map DReleaseAndLog (rev (acquired (log s')))) s')) =
        world (run_defers X (defers s) (s'\<lparr>world := release_layers X (rev (acquired (log s'))) (world s')\<rparr>))"
    by (rule run_defers_world)
  then have 5: "world (snd (Load_return X s0 (r, s'))) =
           world (run_defers X (defers s)
                    (s'\<lparr>world := release_layers X (rev (acquired (log s'))) (world s')\<rparr>))"
    by (simp add: Load_return_def 3 run_defers_append)
  have 6: "\<forall>st rootFS diffID layerPath src l w.
            ls_Get X (RootFS_ChainID L (Append rootFS diffID)) (world st) = (Inr l, w) \<longrightarrow>
            getOrLoadLayer L X layerPath rootFS diffID src quiet st =
              (Inr l, st\<lparr>world := w,
                         log := log st @ [EvGet (RootFS_ChainID L (Append rootFS diffID)) (Inr l)]\<rparr>)"
    by (intro allI impI) (rule getOrLoadLayer_hit)
  from 1 2 3 4 5 6 show ?thesis
    by (intro conjI)
qed




lemma Load_layers_append:
  "Load_layers L X tmpDir quiet m i (xs @ ys) rootFS s =
     (case Load_layers L X tmpDir quiet m i xs rootFS s of
        (Inl e, s1) \<Rightarrow> (Inl e, s1)
      | (Inr r1, s1) \<Rightarrow> Load_layers L X tmpDir quiet m (i + length xs) ys r1 s1)"
proof (induction xs arbitrary: i rootFS s)
  case Nil
  then show ?case by (simp add: return_def)
next
  case (Cons x xs)
  show ?case
    by (simp add: bnd_def Cons.IH throw_def split: prod.splits sum.splits)
qed

lemma Load_items_append:
  "Load_items L X tmpDir quiet (xs @ ys) acc s =
     (case Load_items L X tmpDir quiet xs acc s of
        (Inl e, s1) \<Rightarrow> (Inl e, s1)
      | (Inr acc1, s1) \<Rightarrow> Load_items L X tmpDir quiet ys acc1 s1)"
proof (induction xs arbitrary: acc s)
  case Nil
  then show ?case by (simp add: return_def)
next
  case (Cons x xs)
  show ?case
    by (simp add: bnd_def Cons.IH split: prod.splits sum.splits)
qed

text \<open>C1. The items \<open>pre\<close> before \<open>m\<close> are loaded; the config of \<open>m\<close> is read and its
  layer count matches; the positions before \<open>i\<close> are verified; at position \<open>i\<close> the layer is
  obtained (found or registered) and its DiffID is not the DiffID the config claims. Then
  the manifest path returns the invalid-DiffID error for position \<open>i\<close> in the state right
  after the layer was obtained, with only the release of that layer deferred: no later
  position, item or step runs, and the log holds no image creation beyond those of the
  items before \<open>m\<close>.\<close>

theorem Load_aborts_on_DiffID_mismatch:
  assumes pre: "Load_items L X tmpDir quiet pre ([], [], 0) s = (Inr acc, s1)"
    and cfgp: "sc_safePath (tmpfs s1) tmpDir (Config m) = Inr configPath"
    and cfg: "sc_files (tmpfs s1) configPath = Inr config"
    and img: "NewFromJSON L config = Inr img"
    and len: "length (Layers m) = length (DiffIDs (image_RootFS img))"
    and i: "i < length (DiffIDs (image_RootFS img))"
    and before: "Load_layers L X tmpDir quiet m 0 (take i (DiffIDs (image_RootFS img)))
                   ((image_RootFS img)\<lparr>DiffIDs := []\<rparr>) s1 = (Inr rootFS, s2)"
    and path: "sc_safePath (tmpfs s2) tmpDir (Layers m ! i) = Inr layerPath"
    and obtained: "getOrLoadLayer L X layerPath rootFS (DiffIDs (image_RootFS img) ! i)
                     (sourceOf m (DiffIDs (image_RootFS img) ! i)) quiet s2 = (Inr newLayer, s3)"
    and mismatch: "layer_DiffID newLayer \<noteq> DiffIDs (image_RootFS img) ! i"
  shows "Load_manifest L X tmpDir quiet (pre @ m # post) s =
           (Inl (ErrInvalidDiffID i (DiffIDs (image_RootFS img) ! i) (layer_DiffID newLayer)),
            s3\<lparr>defers := DReleaseAndLog newLayer # defers s3\<rparr>) \<and>
         filter is_create (log s3) = filter is_create (log s1)"
proof -
  let ?ds = "DiffIDs (image_RootFS img)"
  let ?err = "ErrInvalidDiffID i (?ds ! i) (layer_DiffID newLayer)"
  let ?s4 = "s3\<lparr>defers := DReleaseAndLog newLayer # defers s3\<rparr>"
  have split: "take i ?ds @ (?ds ! i) # drop (Suc i) ?ds = ?ds"
    using i by (simp add: id_take_nth_drop [symmetric])
  have li: "length (take i ?ds) = i" using i by simp
  have il: "i < length (Layers m)" using i len by simp
  have at_i: "Load_layers L X tmpDir quiet m i ((?ds ! i) # drop (Suc i) ?ds) rootFS s2 = (Inl ?err, ?s4)"
    using il path obtained mismatch
    by (simp add: bnd_def readE_def deferCall_def throw_def)
  have "Load_layers L X tmpDir quiet m 0 (take i ?ds @ (?ds ! i) # drop (Suc i) ?ds)
          ((image_RootFS img)\<lparr>DiffIDs := []\<rparr>) s1 = (Inl ?err, ?s4)"
    using before at_i li by (simp add: Load_layers_append)
  with split have layers: "Load_layers L X tmpDir quiet m 0 ?ds
          ((image_RootFS img)\<lparr>DiffIDs := []\<rparr>) s1 = (Inl ?err, ?s4)"
    by simp
  have item: "Load_item L X tmpDir quiet m (fst acc, fst (snd acc)) s1 = (Inl ?err, ?s4)"
    using cfgp cfg img len layers by (simp add: Load_item_def bnd_def readE_def)
  have items: "Load_items L X tmpDir quiet (pre @ m # post) ([], [], 0) s = (Inl ?err, ?s4)"
    using pre item by (simp add: Load_items_append bnd_def)
  have run: "Load_manifest L X tmpDir quiet (pre @ m # post) s = (Inl ?err, ?s4)"
    using items by (simp add: Load_manifest_def bnd_def)
  from Load_layers_sum [OF before] obtain ev1 where ev1: "log s2 = log s1 @ ev1" "list_all is_layer_event ev1"
    by (auto simp: steps_def)
  from getOrLoadLayer_sum [OF obtained] obtain ev2 where ev2: "log s3 = log s2 @ ev2" "list_all is_layer_event ev2"
    by auto
  have "filter is_create (log s3) = filter is_create (log s1)"
    using ev1 ev2 layer_events_no_create [of ev1] layer_events_no_create [of ev2] by simp
  with run show ?thesis by simp
qed

section \<open>The single-blob path: results\<close>

text \<open>Whatever the collaborators do, the image a successful \<^verbatim>\<open>loadSquashFS\<close> creates
  is the one whose RootFS holds the empty DiffID followed by the DiffID of the synthesized
  archive.\<close>

lemma loadSquashFS_image_has_two_DiffIDs:
  assumes "loadSquashFS L X inTar tmpDir quiet s = (Inr (), s')"
  shows "\<exists>config i.
     Marshal L \<lparr>image_ID = '''',
                image_RootFS = \<lparr>Type = ''layers'', DiffIDs = ['''', squashfsDiffID L inTar]\<rparr>,
                History = []\<rparr> = Inr config \<and>
     EvCreate config (Inr i) \<in> set (log s')"
  using assms
  by (auto simp: loadSquashFS_def monad_defs Let_def make_DiffIDs_def Append_def run_defers_log
      squashfsDiffID_def split: prod.splits sum.splits if_splits option.splits)

section \<open>The legacy path: results\<close>

text \<open>Whatever the collaborators do: when the layer of an image without parent is
  registered and the history entry cannot be built, \<^verbatim>\<open>legacyLoadImage\<close> returns
  the error in the state the registration left, so nothing is released.\<close>

lemma legacyLoadImage_rest_keeps_layer:
  assumes "sc_safePath (tmpfs s) sourceDir (path_Join L [oldID, legacyLayerFileName L]) = Inr layerPath"
    and "loadLayer L X layerPath NewRootFS oldID '''' quiet s = (Inr newLayer, s1)"
    and "HistoryFromConfig L imageJSON = Inl e"
  shows "legacyLoadImage_rest L X oldID sourceDir imageJSON '''' quiet s = (Inl e, s1)"
  using assms by (simp add: legacyLoadImage_rest_def bnd_def readE_def return_def Let_def)

lemma legacyLoadImage_rest_post:
  assumes "legacyLoadImage_rest L X oldID sourceDir imageJSON pid quiet s = (r, s')"
  shows "tmpfs s' = tmpfs s \<and> (r = Inr () \<longrightarrow> loadedMap s' oldID \<noteq> None)"
  using assms
  by (auto simp: legacyLoadImage_rest_def monad_defs Let_def dest!: loadLayer_sum
      split: sum.splits prod.splits if_splits option.splits)

lemma bind_eq_SomeD:
  "Option.bind m f = Some y \<Longrightarrow> \<exists>x. m = Some x \<and> f x = Some y"
  by (cases m) simp_all

lemma legacyLoadImage_rec_post:
  assumes "legacyLoadImage_rec L X sourceDir quiet c s = Some y"
  shows "tmpfs (snd y) = tmpfs s \<and>
         (fst y = Inr () \<longrightarrow>
            (case c of LoadImage oldID \<Rightarrow> loadedMap (snd y) oldID \<noteq> None
             | ResolveParent oldID imageJSON parent \<Rightarrow> loadedMap (snd y) oldID \<noteq> None))"
proof (rule legacyLoadImage_rec.raw_induct [where P = "\<lambda>L X sourceDir quiet c s y.
    tmpfs (snd y) = tmpfs s \<and>
         (fst y = Inr () \<longrightarrow>
            (case c of LoadImage oldID \<Rightarrow> loadedMap (snd y) oldID \<noteq> None
             | ResolveParent oldID imageJSON parent \<Rightarrow> loadedMap (snd y) oldID \<noteq> None))",
    OF _ assms], goal_cases)
  case (1 f L X sourceDir quiet c s y)
  show ?case
  proof (cases c)
    case (LoadImage oldID)
    show ?thesis
    proof (cases "loadedMap s oldID \<noteq> None")
      case True
      with 1(2) LoadImage show ?thesis by auto
    next
      case False
      show ?thesis
      proof (cases "legacy_parent L (tmpfs s) sourceDir oldID")
        case None
        with 1(2) LoadImage False show ?thesis
          using legacyLoadImage_rest_post [of L X oldID sourceDir _ "''''" quiet s "fst y" "snd y"]
          by (auto simp: legacy_parent_def split: sum.splits if_splits)
      next
        case (Some parent)
        then obtain configPath imageJSON where
          "sc_safePath (tmpfs s) sourceDir (path_Join L [oldID, legacyConfigFileName L]) = Inr configPath"
          "sc_files (tmpfs s) configPath = Inr imageJSON" "decodeParent L imageJSON = Inr parent"
          "parent \<noteq> ''''"
          by (auto simp: legacy_parent_def split: sum.splits if_splits)
        with 1(2) LoadImage False
        have "f L X sourceDir quiet (ResolveParent oldID imageJSON parent) s = Some y"
          by simp
        from 1(1) [OF this] LoadImage show ?thesis by simp
      qed
    qed
  next
    case (ResolveParent oldID imageJSON parent)
    show ?thesis
    proof (cases "loadedMap s parent")
      case (Some pid)
      with 1(2) ResolveParent show ?thesis
        using legacyLoadImage_rest_post [of L X oldID sourceDir imageJSON pid quiet s "fst y" "snd y"]
        by auto
    next
      case None
      with 1(2) ResolveParent obtain rs where
        first: "f L X sourceDir quiet (LoadImage parent) s = Some rs"
        and second: "(case fst rs of Inl e \<Rightarrow> Some (Inl e, snd rs)
                      | Inr u \<Rightarrow> f L X sourceDir quiet (ResolveParent oldID imageJSON parent) (snd rs)) = Some y"
        by (auto dest: bind_eq_SomeD)
      from 1(1) [OF first] have t1: "tmpfs (snd rs) = tmpfs s" by simp
      show ?thesis
      proof (cases "fst rs")
        case (Inl e)
        with second t1 ResolveParent show ?thesis by auto
      next
        case (Inr u)
        with second have "f L X sourceDir quiet (ResolveParent oldID imageJSON parent) (snd rs) = Some y"
          by simp
        from 1(1) [OF this] t1 ResolveParent show ?thesis by simp
      qed
    qed
  qed
qed

lemma legacyLoadImage_memo:
  "loadedMap s oldID \<noteq> None \<Longrightarrow> legacyLoadImage L X oldID sourceDir quiet s = Some (Inr (), s)"
  by (simp add: legacyLoadImage_def legacyLoadImage_rec.simps)

lemma ResolveParent_loaded:
  "loadedMap s parent = Some pid \<Longrightarrow>
   legacyLoadImage_rec L X sourceDir quiet (ResolveParent oldID imageJSON parent) s =
     Some (legacyLoadImage_rest L X oldID sourceDir imageJSON pid quiet s)"
  by (subst legacyLoadImage_rec.simps) simp

lemma finite_chain_returns:
  "chain_ends L sc sourceDir oldID \<Longrightarrow> tmpfs s = sc \<Longrightarrow>
   \<exists>rs. legacyLoadImage_rec L X sourceDir quiet (LoadImage oldID) s = Some rs"
proof (induction arbitrary: s rule: chain_ends.induct)
  case (root oldID)
  then show ?case
    by (subst legacyLoadImage_rec.simps)
      (auto simp: legacy_parent_def split: sum.splits if_splits)
next
  case (child oldID parent)
  show ?case
  proof (cases "loadedMap s oldID \<noteq> None")
    case True
    then show ?thesis
      by (subst legacyLoadImage_rec.simps) simp
  next
    case False
    from child.hyps(1) child.prems obtain configPath imageJSON where rd:
      "sc_safePath (tmpfs s) sourceDir (path_Join L [oldID, legacyConfigFileName L]) = Inr configPath"
      "sc_files (tmpfs s) configPath = Inr imageJSON" "decodeParent L imageJSON = Inr parent"
      "parent \<noteq> ''''"
      by (auto simp: legacy_parent_def split: sum.splits if_splits)
    with False have enter: "legacyLoadImage_rec L X sourceDir quiet (LoadImage oldID) s =
        legacyLoadImage_rec L X sourceDir quiet (ResolveParent oldID imageJSON parent) s"
      by (subst legacyLoadImage_rec.simps) simp
    show ?thesis
    proof (cases "loadedMap s parent")
      case (Some pid)
      with enter show ?thesis by (simp add: ResolveParent_loaded)
    next
      case None
      from child.IH [OF child.prems] obtain rs where
        first: "legacyLoadImage_rec L X sourceDir quiet (LoadImage parent) s = Some rs"
        by auto
      have loop: "legacyLoadImage_rec L X sourceDir quiet (ResolveParent oldID imageJSON parent) s =
          (case fst rs of Inl e \<Rightarrow> Some (Inl e, snd rs)
           | Inr u \<Rightarrow> legacyLoadImage_rec L X sourceDir quiet
                        (ResolveParent oldID imageJSON parent) (snd rs))"
        using None first by (subst legacyLoadImage_rec.simps) simp
      show ?thesis
      proof (cases "fst rs")
        case (Inl e)
        with enter loop show ?thesis by simp
      next
        case (Inr u)
        with legacyLoadImage_rec_post [OF first] obtain pid where "loadedMap (snd rs) parent = Some pid"
          by auto
        with enter loop Inr show ?thesis by (simp add: ResolveParent_loaded)
      qed
    qed
  qed
qed

lemma cycle_never_returns_rec:
  assumes "legacyLoadImage_rec L X sourceDir quiet c s = Some y"
  shows "\<not> ((\<forall>x \<in> C. \<exists>p \<in> C. legacy_parent L (tmpfs s) sourceDir x = Some p) \<and>
            (\<forall>x \<in> C. loadedMap s x = None) \<and>
            (case c of LoadImage oldID \<Rightarrow> oldID \<in> C
             | ResolveParent oldID imageJSON parent \<Rightarrow> parent \<in> C))"
proof (rule legacyLoadImage_rec.raw_induct [where P = "\<lambda>L X sourceDir quiet c s y.
    \<not> ((\<forall>x \<in> C. \<exists>p \<in> C. legacy_parent L (tmpfs s) sourceDir x = Some p) \<and>
            (\<forall>x \<in> C. loadedMap s x = None) \<and>
            (case c of LoadImage oldID \<Rightarrow> oldID \<in> C
             | ResolveParent oldID imageJSON parent \<Rightarrow> parent \<in> C))",
    OF _ assms], goal_cases)
  case (1 f L X sourceDir quiet c s y)
  show ?case
  proof
    assume cyc: "(\<forall>x \<in> C. \<exists>p \<in> C. legacy_parent L (tmpfs s) sourceDir x = Some p) \<and>
            (\<forall>x \<in> C. loadedMap s x = None) \<and>
            (case c of LoadImage oldID \<Rightarrow> oldID \<in> C
             | ResolveParent oldID imageJSON parent \<Rightarrow> parent \<in> C)"
    show False
    proof (cases c)
      case (LoadImage oldID)
      with cyc have inC: "oldID \<in> C" and nl: "loadedMap s oldID = None" by auto
      with cyc obtain p where p: "p \<in> C" "legacy_parent L (tmpfs s) sourceDir oldID = Some p"
        by blast
      from p(2) obtain configPath imageJSON where
        "sc_safePath (tmpfs s) sourceDir (path_Join L [oldID, legacyConfigFileName L]) = Inr configPath"
        "sc_files (tmpfs s) configPath = Inr imageJSON" "decodeParent L imageJSON = Inr p"
        "p \<noteq> ''''"
        by (auto simp: legacy_parent_def split: sum.splits if_splits)
      with 1(2) LoadImage nl
      have "f L X sourceDir quiet (ResolveParent oldID imageJSON p) s = Some y"
        by simp
      from 1(1) [OF this] cyc p(1) show False by simp
    next
      case (ResolveParent oldID imageJSON parent)
      with cyc have inC: "parent \<in> C" and nl: "loadedMap s parent = None" by auto
      with 1(2) ResolveParent obtain rs where
        "f L X sourceDir quiet (LoadImage parent) s = Some rs"
        by (auto dest: bind_eq_SomeD)
      from 1(1) [OF this] cyc inC show False by simp
    qed
  qed
qed

text \<open>A set of legacy IDs closed under the parent pointer, none of them loaded: a call for
  any of them never returns. This covers every cycle of parent pointers.\<close>

lemma cycle_never_returns:
  assumes "\<forall>x \<in> C. \<exists>p \<in> C. legacy_parent L (tmpfs s) sourceDir x = Some p"
    and "\<forall>x \<in> C. loadedMap s x = None" and "oldID \<in> C"
  shows "legacyLoadImage L X oldID sourceDir quiet s = None"
proof (cases "legacyLoadImage_rec L X sourceDir quiet (LoadImage oldID) s")
  case None
  then show ?thesis by (simp add: legacyLoadImage_def)
next
  case (Some y)
  from cycle_never_returns_rec [OF Some, of C] assms show ?thesis by simp
qed

text \<open>C5, amended. The map is a memoization cache: for a legacy ID it already holds,
  \<^verbatim>\<open>legacyLoadImage\<close> returns nil at once and changes nothing. And
  \<^verbatim>\<open>legacyLoadImage\<close> returns (a result or an error) whenever the chain of parent
  pointers from the requested ID is finite, whatever the collaborators do. The map gets
  an ID only when its image is completely loaded, so it guards no cycle; see
  \<open>cycle_never_returns\<close>.\<close>

theorem legacyLoadImage_returns_on_finite_chain:
  "(loadedMap s oldID \<noteq> None \<longrightarrow> legacyLoadImage L X oldID sourceDir quiet s = Some (Inr (), s)) \<and>
   (chain_ends L (tmpfs s) sourceDir oldID \<longrightarrow>
      (\<exists>rs. legacyLoadImage L X oldID sourceDir quiet s = Some rs))"
  using legacyLoadImage_memo [of s oldID L X sourceDir quiet]
    finite_chain_returns [of L "tmpfs s" sourceDir oldID s X quiet]
  by (simp add: legacyLoadImage_def)

section \<open>Runs of the examples\<close>

lemmas example_defs = example_sys_def example_lib_def example_state_def example_scratch_def
  example_Create_def example_image_def example_imageID_def example_Register_def example_diffID_def

lemmas sniff_defs = Load_def Peek_def bufio_Peek_def NewReader_def fill_def bufSize_def
  squashfsMagic_def Load_return_def



text \<open>C9 as stated fails on a stream of three bytes, here the first three bytes of the
  magic: \<^verbatim>\<open>Load\<close> returns the error of the peek and leaves state and log as they
  were, while the single-blob loader on this stream would succeed and create an image, and
  the unpacker would refuse the stream with its own error.\<close>

theorem Load_short_stream_neither_loader:
  "Load example_lib example_sys [0x68, 0x73, 0x71] True example_state =
     Some (Inl (ErrExternal ''EOF''), example_state) \<and>
   log example_state = [] \<and>
   (fst (loadSquashFS example_lib example_sys \<lparr>brc_r = NewReader [0x68, 0x73, 0x71]\<rparr> ''/t'' True
           (example_state\<lparr>defers := [DRemoveAll ''/t'']\<rparr>)),
    filter is_create
      (log (snd (loadSquashFS example_lib example_sys \<lparr>brc_r = NewReader [0x68, 0x73, 0x71]\<rparr> ''/t'' True
           (example_state\<lparr>defers := [DRemoveAll ''/t'']\<rparr>))))) =
     (Inr (), [EvCreate [0, 9] (Inr ''id0'')]) \<and>
   map_option fst (Load_structured example_lib example_sys \<lparr>brc_r = NewReader [0x68, 0x73, 0x71]\<rparr> ''/t'' True
           (example_state\<lparr>defers := [DRemoveAll ''/t'']\<rparr>)) =
     Some (Inl (ErrExternal ''invalid tar header''))"
proof -
  have a: "Load example_lib example_sys [0x68, 0x73, 0x71] True example_state =
     Some (Inl (ErrExternal ''EOF''), example_state)"
    by (simp add: sniff_defs example_defs)
  have b: "log example_state = []"
    by (simp add: example_state_def)
  have c: "(fst (loadSquashFS example_lib example_sys \<lparr>brc_r = NewReader [0x68, 0x73, 0x71]\<rparr> ''/t'' True
           (example_state\<lparr>defers := [DRemoveAll ''/t'']\<rparr>)),
    filter is_create
      (log (snd (loadSquashFS example_lib example_sys \<lparr>brc_r = NewReader [0x68, 0x73, 0x71]\<rparr> ''/t'' True
           (example_state\<lparr>defers := [DRemoveAll ''/t'']\<rparr>))))) =
     (Inr (), [EvCreate [0, 9] (Inr ''id0'')])"
    by (simp add: example_defs monad_defs copyBufSize_def loadSquashFS_def make_DiffIDs_def
        loadedImageIDLine_def loadLayer_def RootFS_ChainID_def Append_def Let_def is_create_def
        ReadAll_fresh)
  have d: "map_option fst (Load_structured example_lib example_sys \<lparr>brc_r = NewReader [0x68, 0x73, 0x71]\<rparr> ''/t'' True
           (example_state\<lparr>defers := [DRemoveAll ''/t'']\<rparr>)) =
     Some (Inl (ErrExternal ''invalid tar header''))"
    using Load_structured_fresh [where L = example_lib and X = example_sys
        and inTar = "[0x68, 0x73, 0x71]" and tmpDir = "''/t''" and quiet = True
        and s = example_state and w = "world example_state" and ds = "[DRemoveAll ''/t'']"]
    by (simp add: example_sys_def)
  from a b c d show ?thesis by simp
qed

text \<open>C3, on the code: the single-blob loader on a stream that starts with the magic. The
  load succeeds and creates one image; the config it creates is the one whose RootFS holds
  two DiffIDs, the empty one that \<^verbatim>\<open>make([]layer.DiffID, 1)\<close> puts first and the
  DiffID of the synthesized archive, and not the config of the single-element RootFS.\<close>

theorem loadSquashFS_creates_two_DiffIDs:
  "map_option (\<lambda>rs. (fst rs, filter is_create (log (snd rs))))
     (Load example_lib example_sys [0x68, 0x73, 0x71, 0x73, 1, 2] True example_state) =
     Some (Inr (), [EvCreate [0, 9] (Inr ''id0'')]) \<and>
   Marshal example_lib \<lparr>image_ID = '''', image_RootFS = \<lparr>Type = ''layers'', DiffIDs = ['''', ''sha256:aa'']\<rparr>,
                         History = []\<rparr> = Inr [0, 9] \<and>
   Marshal example_lib \<lparr>image_ID = '''', image_RootFS = \<lparr>Type = ''layers'', DiffIDs = [''sha256:aa'']\<rparr>,
                         History = []\<rparr> = Inr [9]"
proof -
  have "map_option (\<lambda>rs. (fst rs, filter is_create (log (snd rs))))
     (Load example_lib example_sys [0x68, 0x73, 0x71, 0x73, 1, 2] True example_state) =
     Some (Inr (), [EvCreate [0, 9] (Inr ''id0'')])"
    by (simp add: sniff_defs example_defs monad_defs copyBufSize_def loadSquashFS_def make_DiffIDs_def
        loadedImageIDLine_def loadLayer_def RootFS_ChainID_def Append_def Let_def is_create_def)
  then show ?thesis
    by (simp add: example_lib_def)
qed

text \<open>C6, on the code: a legacy archive with one image whose config does not give a
  history entry. \<^verbatim>\<open>legacyLoadImage\<close> has registered the layer when
  \<^verbatim>\<open>HistoryFromConfig\<close> fails; \<^verbatim>\<open>Load\<close> returns that error and its whole log
  is the registration: the layer is never released.\<close>

theorem legacyLoadImage_leaks_layer:
  "map_option (\<lambda>rs. (fst rs, log (snd rs)))
     (Load example_lib example_sys [1, 2, 3, 4, 5] True example_state) =
     Some (Inl (ErrExternal ''invalid history''),
           [EvRegister [] (Inr \<lparr>layer_ChainID = ''d1'', layer_DiffID = ''d1''\<rparr>)])"
  by (simp add: sniff_defs example_defs monad_defs Load_structured_def Load_unpacked_def legacyLoad_def
      legacyLoadImage_def legacyLoadImage_rec.simps legacyLoadImage_rest_def loadLayer_def
      RootFS_ChainID_def NewRootFS_def Append_def Let_def ReadAll_whole_stream copyBufSize_def)

lemmas manifest_defs = Load_manifest_def Load_item_def getOrLoadLayer_def loadLayer_def setLoadedTag_def
  setParentID_def checkValidParent_def validatedParentLinks_def sourceOf_def RootFS_ChainID_def Append_def

subsection \<open>The manifest path\<close>


lemma example_family_run:
  "log (snd (Load_manifest example_lib example_sys ''/t'' True [example_base, example_child] example_state)) =
     [EvGet ''d1'' (Inl (ErrExternal ''layer does not exist'')),
      EvRegister [] (Inr \<lparr>layer_ChainID = ''d1'', layer_DiffID = ''d1''\<rparr>),
      EvCreate [1] (Inr ''id1''), EvAddTag (Named ''a'' (Some ''b'')) ''id1'',
      EvWrite (loadedImageLine ''a:b''), EvImageEvent ''id1'',
      EvGet ''d1'' (Inr \<lparr>layer_ChainID = ''d1'', layer_DiffID = ''d1''\<rparr>),
      EvGet ''H(d1 d2)'' (Inl (ErrExternal ''layer does not exist'')),
      EvRegister ''d1'' (Inr \<lparr>layer_ChainID = ''H(d1 d2)'', layer_DiffID = ''d2''\<rparr>),
      EvCreate [2] (Inr ''id2''), EvImageEvent ''id2'',
      EvSetParent ''id2'' ''id1'',
      EvWrite (loadedImageIDLine ''id1'' @ loadedImageIDLine ''id2'')]"
  by (simp add: manifest_defs monad_defs example_defs example_base_def example_child_def)

lemma example_bad_obtained:
  "getOrLoadLayer example_lib example_sys ''/t/lbad'' \<lparr>Type = ''layers'', DiffIDs = []\<rparr> ''d1''
     (sourceOf example_bad ''d1'') True example_state =
   (Inr \<lparr>layer_ChainID = ''dX'', layer_DiffID = ''dX''\<rparr>,
    example_state\<lparr>world := \<lparr>ew_layers = [(''dX'', \<lparr>layer_ChainID = ''dX'', layer_DiffID = ''dX''\<rparr>)], ew_images = []\<rparr>,
       log := [EvGet ''d1'' (Inl (ErrExternal ''layer does not exist'')),
               EvRegister [] (Inr \<lparr>layer_ChainID = ''dX'', layer_DiffID = ''dX''\<rparr>)]\<rparr>)"
  by (simp add: manifest_defs monad_defs example_defs example_bad_def)

text \<open>The theorem of C1 on a one-item manifest whose layer file registers as \<open>dX\<close> where
  the config claims \<open>d1\<close>: the load stops at position 0 and creates no image.\<close>

theorem Load_aborts_on_DiffID_mismatch_witness:
  "Load_manifest example_lib example_sys ''/t'' True [example_bad] example_state =
     (Inl (ErrInvalidDiffID 0 ''d1'' ''dX''),
      example_state\<lparr>world := \<lparr>ew_layers = [(''dX'', \<lparr>layer_ChainID = ''dX'', layer_DiffID = ''dX''\<rparr>)], ew_images = []\<rparr>,
         log := [EvGet ''d1'' (Inl (ErrExternal ''layer does not exist'')),
                 EvRegister [] (Inr \<lparr>layer_ChainID = ''dX'', layer_DiffID = ''dX''\<rparr>)],
         defers := [DReleaseAndLog \<lparr>layer_ChainID = ''dX'', layer_DiffID = ''dX''\<rparr>]\<rparr>) \<and>
   filter is_create
     [EvGet ''d1'' (Inl (ErrExternal ''layer does not exist'')),
      EvRegister [] (Inr \<lparr>layer_ChainID = ''dX'', layer_DiffID = ''dX''\<rparr>)] = []"
proof -
  let ?img = "\<lparr>image_ID = '''', image_RootFS = \<lparr>Type = ''layers'', DiffIDs = [''d1'']\<rparr>, History = [''h1'']\<rparr>"
  let ?lX = "\<lparr>layer_ChainID = ''dX'', layer_DiffID = ''dX''\<rparr>"
  let ?s3 = "example_state\<lparr>world := \<lparr>ew_layers = [(''dX'', ?lX)], ew_images = []\<rparr>,
       log := [EvGet ''d1'' (Inl (ErrExternal ''layer does not exist'')), EvRegister [] (Inr ?lX)]\<rparr>"
  have pre: "Load_items example_lib example_sys ''/t'' True [] ([], [], 0) example_state =
      (Inr ([], [], 0), example_state)"
    by (simp add: return_def)
  have cfgp: "sc_safePath (tmpfs example_state) ''/t'' (Config example_bad) = Inr ''/t/c1''"
    by (simp add: example_defs example_bad_def)
  have cfg: "sc_files (tmpfs example_state) ''/t/c1'' = Inr [1]"
    by (simp add: example_defs)
  have img: "NewFromJSON example_lib [1] = Inr ?img"
    by (simp add: example_defs)
  have len: "length (Layers example_bad) = length (DiffIDs (image_RootFS ?img))"
    by (simp add: example_bad_def)
  have i: "0 < length (DiffIDs (image_RootFS ?img))"
    by simp
  have before: "Load_layers example_lib example_sys ''/t'' True example_bad 0
      (take 0 (DiffIDs (image_RootFS ?img))) ((image_RootFS ?img)\<lparr>DiffIDs := []\<rparr>) example_state =
      (Inr \<lparr>Type = ''layers'', DiffIDs = []\<rparr>, example_state)"
    by (simp add: return_def)
  have path: "sc_safePath (tmpfs example_state) ''/t'' (Layers example_bad ! 0) = Inr ''/t/lbad''"
    by (simp add: example_defs example_bad_def)
  have obtained: "getOrLoadLayer example_lib example_sys ''/t/lbad'' \<lparr>Type = ''layers'', DiffIDs = []\<rparr>
      (DiffIDs (image_RootFS ?img) ! 0) (sourceOf example_bad (DiffIDs (image_RootFS ?img) ! 0)) True
      example_state = (Inr ?lX, ?s3)"
    using example_bad_obtained by simp
  have mismatch: "layer_DiffID ?lX \<noteq> DiffIDs (image_RootFS ?img) ! 0"
    by simp
  from Load_aborts_on_DiffID_mismatch [OF pre cfgp cfg img len i before path obtained mismatch, of "[]"]
  show ?thesis
    by (simp add: example_state_def)
qed



lemma example_family_store:
  "ew_layers (world (snd (Load_manifest example_lib example_sys ''/t'' True [example_base, example_child]
     example_state))) =
     [(''H(d1 d2)'', \<lparr>layer_ChainID = ''H(d1 d2)'', layer_DiffID = ''d2''\<rparr>),
      (''d1'', \<lparr>layer_ChainID = ''d1'', layer_DiffID = ''d1''\<rparr>),
      (''d1'', \<lparr>layer_ChainID = ''d1'', layer_DiffID = ''d1''\<rparr>)]"
  by (simp add: manifest_defs monad_defs example_defs example_base_def example_child_def)

text \<open>The theorem of C8 on an image and its child: the child finds the first layer in the
  store and registers only the second. The store holds three references when the manifest
  path is done and none when \<^verbatim>\<open>Load\<close> has returned: the three are released, last
  acquired first. A lookup of the first layer in the store that the manifest path left is
  the whole of \<^verbatim>\<open>getOrLoadLayer\<close>.\<close>

theorem manifest_layers_reused_and_released_witness:
  "reg_guarded (log (snd (Load_manifest example_lib example_sys ''/t'' True [example_base, example_child] example_state))) \<and>
   released (log (snd (Load_manifest example_lib example_sys ''/t'' True [example_base, example_child] example_state))) = [] \<and>
   acquired (log (snd (Load_manifest example_lib example_sys ''/t'' True [example_base, example_child] example_state))) =
     [\<lparr>layer_ChainID = ''d1'', layer_DiffID = ''d1''\<rparr>, \<lparr>layer_ChainID = ''d1'', layer_DiffID = ''d1''\<rparr>,
      \<lparr>layer_ChainID = ''H(d1 d2)'', layer_DiffID = ''d2''\<rparr>] \<and>
   log (snd (Load_return example_sys example_state
     (Load_manifest example_lib example_sys ''/t'' True [example_base, example_child] example_state))) =
     log (snd (Load_manifest example_lib example_sys ''/t'' True [example_base, example_child] example_state)) @
     map EvRelease [\<lparr>layer_ChainID = ''H(d1 d2)'', layer_DiffID = ''d2''\<rparr>,
       \<lparr>layer_ChainID = ''d1'', layer_DiffID = ''d1''\<rparr>, \<lparr>layer_ChainID = ''d1'', layer_DiffID = ''d1''\<rparr>] \<and>
   ew_layers (world (snd (Load_manifest example_lib example_sys ''/t'' True [example_base, example_child]
     example_state))) =
     [(''H(d1 d2)'', \<lparr>layer_ChainID = ''H(d1 d2)'', layer_DiffID = ''d2''\<rparr>),
      (''d1'', \<lparr>layer_ChainID = ''d1'', layer_DiffID = ''d1''\<rparr>),
      (''d1'', \<lparr>layer_ChainID = ''d1'', layer_DiffID = ''d1''\<rparr>)] \<and>
   ew_layers (world (snd (Load_return example_sys example_state
     (Load_manifest example_lib example_sys ''/t'' True [example_base, example_child] example_state)))) = [] \<and>
   ls_Get example_sys (RootFS_ChainID example_lib (Append \<lparr>Type = ''layers'', DiffIDs = []\<rparr> ''d1''))
     (world (snd (Load_manifest example_lib example_sys ''/t'' True [example_base, example_child] example_state))) =
     (Inr \<lparr>layer_ChainID = ''d1'', layer_DiffID = ''d1''\<rparr>,
      world (snd (Load_manifest example_lib example_sys ''/t'' True [example_base, example_child] example_state))
        \<lparr>ew_layers := (''d1'', \<lparr>layer_ChainID = ''d1'', layer_DiffID = ''d1''\<rparr>) #
           ew_layers (world (snd (Load_manifest example_lib example_sys ''/t'' True
             [example_base, example_child] example_state)))\<rparr>) \<and>
   fst (getOrLoadLayer example_lib example_sys ''/t/l1'' \<lparr>Type = ''layers'', DiffIDs = []\<rparr> ''d1''
          (sourceOf example_base ''d1'') True
          (snd (Load_manifest example_lib example_sys ''/t'' True [example_base, example_child] example_state))) =
     Inr \<lparr>layer_ChainID = ''d1'', layer_DiffID = ''d1''\<rparr> \<and>
   log (snd (getOrLoadLayer example_lib example_sys ''/t/l1'' \<lparr>Type = ''layers'', DiffIDs = []\<rparr> ''d1''
          (sourceOf example_base ''d1'') True
          (snd (Load_manifest example_lib example_sys ''/t'' True [example_base, example_child] example_state)))) =
     log (snd (Load_manifest example_lib example_sys ''/t'' True [example_base, example_child] example_state)) @
     [EvGet ''d1'' (Inr \<lparr>layer_ChainID = ''d1'', layer_DiffID = ''d1''\<rparr>)]"
proof -
  let ?run = "Load_manifest example_lib example_sys ''/t'' True [example_base, example_child] example_state"
  let ?l1 = "\<lparr>layer_ChainID = ''d1'', layer_DiffID = ''d1''\<rparr>"
  let ?l2 = "\<lparr>layer_ChainID = ''H(d1 d2)'', layer_DiffID = ''d2''\<rparr>"
  have h1: "?run = (fst ?run, snd ?run)" by simp
  have h2: "log example_state = []" by (simp add: example_state_def)
  have acq: "acquired (log (snd ?run)) = [?l1, ?l1, ?l2]"
    by (simp add: example_family_run acquired_def acquired_by_def)
  have d0: "defers example_state = []"
    by (simp add: example_state_def)
  have d1: "to_release [] = []"
    by (simp add: to_release_def)
  have "release_layers example_sys [?l2, ?l1, ?l1] w =
      w\<lparr>ew_layers := remove1 (''d1'', ?l1) (remove1 (''d1'', ?l1) (remove1 (''H(d1 d2)'', ?l2) (ew_layers w)))\<rparr>"
    for w
    by (simp add: example_sys_def)
  then have rel: "ew_layers (release_layers example_sys [?l2, ?l1, ?l1] (world (snd ?run))) = []"
    by (simp add: example_family_store)
  have chain: "RootFS_ChainID example_lib (Append \<lparr>Type = ''layers'', DiffIDs = []\<rparr> ''d1'') = ''d1''"
    by (simp add: RootFS_ChainID_def Append_def example_lib_def)
  have "ls_Get example_sys c w =
      (case map_of (ew_layers w) c of
         None \<Rightarrow> (Inl (ErrExternal ''layer does not exist''), w)
       | Some l \<Rightarrow> (Inr l, w\<lparr>ew_layers := (c, l) # ew_layers w\<rparr>))" for c w
    by (simp add: example_sys_def)
  then have get: "ls_Get example_sys ''d1'' (world (snd ?run)) =
      (Inr ?l1, world (snd ?run)\<lparr>ew_layers := (''d1'', ?l1) # ew_layers (world (snd ?run))\<rparr>)"
    by (simp add: example_family_store)
  note T = manifest_layers_reused_and_released [OF h1 h2, of example_state]
  from T have c1: "reg_guarded (log (snd ?run))"
    by (elim conjE)
  from T have c2: "released (log (snd ?run)) = []"
    by (elim conjE)
  from T have c3: "log (snd (Load_return example_sys example_state (fst ?run, snd ?run))) =
           log (snd ?run) @ map EvRelease (rev (acquired (log (snd ?run))) @ to_release (defers example_state))"
    by (elim conjE)
  from T have c4: "world (snd (Load_return example_sys example_state (fst ?run, snd ?run))) =
           world (run_defers example_sys (defers example_state)
                    ((snd ?run)\<lparr>world := release_layers example_sys (rev (acquired (log (snd ?run)))) (world (snd ?run))\<rparr>))"
    by (elim conjE)
  from T have "\<forall>st rootFS diffID layerPath src l w.
            ls_Get example_sys (RootFS_ChainID example_lib (Append rootFS diffID)) (world st) = (Inr l, w) \<longrightarrow>
            getOrLoadLayer example_lib example_sys layerPath rootFS diffID src True st =
              (Inr l, st\<lparr>world := w,
                         log := log st @ [EvGet (RootFS_ChainID example_lib (Append rootFS diffID)) (Inr l)]\<rparr>)"
    by (elim conjE)
  then have hit: "ls_Get example_sys (RootFS_ChainID example_lib (Append \<lparr>Type = ''layers'', DiffIDs = []\<rparr> ''d1''))
            (world (snd ?run)) = (Inr ?l1, w) \<Longrightarrow>
          getOrLoadLayer example_lib example_sys ''/t/l1'' \<lparr>Type = ''layers'', DiffIDs = []\<rparr> ''d1''
            (sourceOf example_base ''d1'') True (snd ?run) =
          (Inr ?l1, (snd ?run)\<lparr>world := w, log := log (snd ?run) @
             [EvGet (RootFS_ChainID example_lib (Append \<lparr>Type = ''layers'', DiffIDs = []\<rparr> ''d1'')) (Inr ?l1)]\<rparr>)"
    for w
    by (elim allE impE) assumption+
  have c5: "getOrLoadLayer example_lib example_sys ''/t/l1'' \<lparr>Type = ''layers'', DiffIDs = []\<rparr> ''d1''
            (sourceOf example_base ''d1'') True (snd ?run) =
          (Inr ?l1, (snd ?run)\<lparr>world := world (snd ?run)\<lparr>ew_layers := (''d1'', ?l1) # ew_layers (world (snd ?run))\<rparr>,
             log := log (snd ?run) @ [EvGet ''d1'' (Inr ?l1)]\<rparr>)"
    using hit [of "world (snd ?run)\<lparr>ew_layers := (''d1'', ?l1) # ew_layers (world (snd ?run))\<rparr>"] get
    by (simp only: chain)
  have c4': "ew_layers (world (snd (Load_return example_sys example_state ?run))) = []"
    using c4 rel by (simp add: acq d0)
  have c3': "log (snd (Load_return example_sys example_state ?run)) =
     log (snd ?run) @ map EvRelease [?l2, ?l1, ?l1]"
    using c3 by (simp add: acq d0 d1)
  have g': "ls_Get example_sys (RootFS_ChainID example_lib (Append \<lparr>Type = ''layers'', DiffIDs = []\<rparr> ''d1''))
     (world (snd ?run)) =
     (Inr ?l1, world (snd ?run)\<lparr>ew_layers := (''d1'', ?l1) # ew_layers (world (snd ?run))\<rparr>)"
    using get by (simp only: chain)
  have c5a: "fst (getOrLoadLayer example_lib example_sys ''/t/l1'' \<lparr>Type = ''layers'', DiffIDs = []\<rparr> ''d1''
            (sourceOf example_base ''d1'') True (snd ?run)) = Inr ?l1"
    by (simp only: c5 fst_conv)
  have c5b: "log (snd (getOrLoadLayer example_lib example_sys ''/t/l1'' \<lparr>Type = ''layers'', DiffIDs = []\<rparr> ''d1''
            (sourceOf example_base ''d1'') True (snd ?run))) =
          log (snd ?run) @ [EvGet ''d1'' (Inr ?l1)]"
    by (simp add: c5)
  from c1 c2 acq c3' example_family_store c4' g' c5a c5b show ?thesis
    by (intro conjI)
qed

subsection \<open>The legacy path\<close>

text \<open>C5 as stated fails: the image \<open>c\<close> of the example archive names itself as parent,
  and \<^verbatim>\<open>legacyLoadImage\<close> never returns on it.\<close>

theorem legacyLoadImage_self_parent_never_returns:
  "legacyLoadImage example_lib example_sys ''c'' ''/t'' True example_state = None"
proof -
  have "legacy_parent example_lib (tmpfs example_state) ''/t'' ''c'' = Some ''c''"
    by (simp add: legacy_parent_def example_defs)
  then have "\<forall>x \<in> {''c''}. \<exists>p \<in> {''c''}. legacy_parent example_lib (tmpfs example_state) ''/t'' x = Some p"
    by simp
  moreover have "\<forall>x \<in> {''c''}. loadedMap example_state x = None"
    by (simp add: example_state_def)
  ultimately show ?thesis
    by (rule cycle_never_returns) simp
qed

lemma example_chain_ends: "chain_ends example_lib (tmpfs example_state) ''/t'' ''b''"
proof -
  have a: "legacy_parent example_lib (tmpfs example_state) ''/t'' ''a'' = None"
    by (simp add: legacy_parent_def example_defs)
  have b: "legacy_parent example_lib (tmpfs example_state) ''/t'' ''b'' = Some ''a''"
    by (simp add: legacy_parent_def example_defs)
  from chain_ends.child [OF b chain_ends.root [OF a]] show ?thesis .
qed

lemma example_legacy_run:
  "map_option (\<lambda>rs. (fst rs, log (snd rs), loadedMap (snd rs) ''a'', loadedMap (snd rs) ''b''))
     (legacyLoadImage example_lib example_sys ''b'' ''/t'' True example_state) =
   Some (Inr (),
     [EvRegister [] (Inr \<lparr>layer_ChainID = ''d1'', layer_DiffID = ''d1''\<rparr>),
      EvCreate [1] (Inr ''id1''),
      EvRelease \<lparr>layer_ChainID = ''d1'', layer_DiffID = ''d1''\<rparr>,
      EvRegister ''d1'' (Inr \<lparr>layer_ChainID = ''H(d1 d2)'', layer_DiffID = ''d2''\<rparr>),
      EvCreate [2] (Inr ''id2''),
      EvRelease \<lparr>layer_ChainID = ''H(d1 d2)'', layer_DiffID = ''d2''\<rparr>,
      EvSetParent ''id2'' ''id1''],
     Some ''id1'', Some ''id2'')"
  by (simp add: legacyLoadImage_def legacyLoadImage_rec.simps legacyLoadImage_rest_def loadLayer_def
      monad_defs example_defs RootFS_ChainID_def NewRootFS_def Append_def Let_def)

text \<open>The amended theorem of C5 on the image \<open>b\<close>, whose parent \<open>a\<close> has none, and on an ID
  the map already holds.\<close>

theorem legacyLoadImage_returns_on_finite_chain_witness:
  "chain_ends example_lib (tmpfs example_state) ''/t'' ''b'' \<and>
   (\<exists>rs. legacyLoadImage example_lib example_sys ''b'' ''/t'' True example_state = Some rs) \<and>
   loadedMap (example_state\<lparr>loadedMap := [''a'' \<mapsto> ''id1'']\<rparr>) ''a'' \<noteq> None \<and>
   legacyLoadImage example_lib example_sys ''a'' ''/t'' True (example_state\<lparr>loadedMap := [''a'' \<mapsto> ''id1'']\<rparr>) =
     Some (Inr (), example_state\<lparr>loadedMap := [''a'' \<mapsto> ''id1'']\<rparr>)"
proof -
  have m: "loadedMap (example_state\<lparr>loadedMap := [''a'' \<mapsto> ''id1'']\<rparr>) ''a'' \<noteq> None"
    by simp
  from legacyLoadImage_returns_on_finite_chain [of example_state "''b''" example_lib example_sys "''/t''" True]
    legacyLoadImage_returns_on_finite_chain [of "example_state\<lparr>loadedMap := [''a'' \<mapsto> ''id1'']\<rparr>" "''a''"
       example_lib example_sys "''/t''" True]
    example_chain_ends m
  show ?thesis by blast
qed

end
